theory Spec2Isabelle
  imports Main "HOL-Library.Multiset"
begin

section \<open>Constants of space4k.py\<close>

definition SCREEN_WIDTH :: int where "SCREEN_WIDTH = 800"
definition SCREEN_HEIGHT :: int where "SCREEN_HEIGHT = 600"

definition PLAYER_WIDTH :: int where "PLAYER_WIDTH = 50"
definition PLAYER_HEIGHT :: int where "PLAYER_HEIGHT = 20"
definition PLAYER_SPEED :: int where "PLAYER_SPEED = 4"
definition PLAYER_LIVES :: int where "PLAYER_LIVES = 3"

definition BULLET_WIDTH :: int where "BULLET_WIDTH = 5"
definition BULLET_HEIGHT :: int where "BULLET_HEIGHT = 15"
definition BULLET_SPEED :: int where "BULLET_SPEED = 6"

definition ENEMY_COLS :: nat where "ENEMY_COLS = 10"
definition ENEMY_ROWS :: nat where "ENEMY_ROWS = 5"
definition ENEMY_SPACING_X :: int where "ENEMY_SPACING_X = 60"
definition ENEMY_SPACING_Y :: int where "ENEMY_SPACING_Y = 40"
definition ENEMY_WIDTH :: int where "ENEMY_WIDTH = 40"
definition ENEMY_HEIGHT :: int where "ENEMY_HEIGHT = 20"
definition ENEMY_MOVE_SPEED_X :: int where "ENEMY_MOVE_SPEED_X = 1"
definition ENEMY_MOVE_DOWN_STEP :: int where "ENEMY_MOVE_DOWN_STEP = 10"
definition ENEMY_MOVE_INTERVAL :: int where "ENEMY_MOVE_INTERVAL = 500"

type_synonym colour = "int \<times> int \<times> int"

definition YELLOW :: colour where "YELLOW = (255, 255, 0)"
definition CYAN :: colour where "CYAN = (0, 255, 255)"

section \<open>Rectangles of the sprite library\<close>

text \<open>
  Every sprite of the game carries a \<open>pygame.Rect\<close>: integer position of the top-left corner
  and integer size. The game reads the virtual attributes \<open>left\<close>, \<open>top\<close>, \<open>right\<close>,
  \<open>bottom\<close>, \<open>centerx\<close> and assigns \<open>x\<close>, \<open>y\<close>, \<open>left\<close>, \<open>right\<close>, \<open>top\<close>, \<open>bottom\<close>,
  \<open>centerx\<close>, \<open>centery\<close>; an assignment to a virtual attribute moves the rectangle and keeps
  its size.
\<close>

record Rect =
  rect_x :: int
  rect_y :: int
  rect_w :: int
  rect_h :: int

definition get_rect :: "int \<Rightarrow> int \<Rightarrow> Rect" where
  \<comment> \<open>\<open>pygame.Surface([w, h]).get_rect()\<close>\<close>
  "get_rect w h = \<lparr>rect_x = 0, rect_y = 0, rect_w = w, rect_h = h\<rparr>"

definition rect_left :: "Rect \<Rightarrow> int" where "rect_left r = rect_x r"
definition rect_top :: "Rect \<Rightarrow> int" where "rect_top r = rect_y r"
definition rect_right :: "Rect \<Rightarrow> int" where "rect_right r = rect_x r + rect_w r"
definition rect_bottom :: "Rect \<Rightarrow> int" where "rect_bottom r = rect_y r + rect_h r"
definition rect_centerx :: "Rect \<Rightarrow> int" where "rect_centerx r = rect_x r + rect_w r div 2"

definition set_left :: "int \<Rightarrow> Rect \<Rightarrow> Rect" where
  "set_left v r = r\<lparr>rect_x := v\<rparr>"
definition set_right :: "int \<Rightarrow> Rect \<Rightarrow> Rect" where
  "set_right v r = r\<lparr>rect_x := v - rect_w r\<rparr>"
definition set_top :: "int \<Rightarrow> Rect \<Rightarrow> Rect" where
  "set_top v r = r\<lparr>rect_y := v\<rparr>"
definition set_bottom :: "int \<Rightarrow> Rect \<Rightarrow> Rect" where
  "set_bottom v r = r\<lparr>rect_y := v - rect_h r\<rparr>"
definition set_centerx :: "int \<Rightarrow> Rect \<Rightarrow> Rect" where
  "set_centerx v r = r\<lparr>rect_x := v - rect_w r div 2\<rparr>"
definition set_centery :: "int \<Rightarrow> Rect \<Rightarrow> Rect" where
  "set_centery v r = r\<lparr>rect_y := v - rect_h r div 2\<rparr>"

definition colliderect :: "Rect \<Rightarrow> Rect \<Rightarrow> bool" where
  \<comment> \<open>\<open>a.colliderect(b)\<close>: the interiors overlap; touching edges do not collide and a
      rectangle of size zero collides with nothing.\<close>
  "colliderect a b =
     (if rect_w a = 0 \<or> rect_h a = 0 \<or> rect_w b = 0 \<or> rect_h b = 0 then False
      else min (rect_x a) (rect_x a + rect_w a) < max (rect_x b) (rect_x b + rect_w b)
         \<and> min (rect_y a) (rect_y a + rect_h a) < max (rect_y b) (rect_y b + rect_h b)
         \<and> max (rect_x a) (rect_x a + rect_w a) > min (rect_x b) (rect_x b + rect_w b)
         \<and> max (rect_y a) (rect_y a + rect_h a) > min (rect_y b) (rect_y b + rect_h b))"

section \<open>Sound cues\<close>

text \<open>
  \<open>SoundEngine.play\<close> plays a sound when its name is one of the four generated ones and does
  nothing otherwise. The model records the names played, in order.
\<close>

definition sounds :: "string list" where
  "sounds = [''player_shoot'', ''enemy_shoot'', ''enemy_destroyed'', ''player_hit'']"

definition play :: "string \<Rightarrow> string list \<Rightarrow> string list" where
  "play sound_name cs = (if sound_name \<in> set sounds then cs @ [sound_name] else cs)"

section \<open>Sprites\<close>

record Player =
  p_rect :: Rect
  speed_x :: int
  lives :: int
  shoot_delay :: int
  last_shot_time :: int

record Enemy =
  e_rect :: Rect
  enemy_type :: nat

record Bullet =
  b_rect :: Rect
  speed_y :: int
  b_color :: colour

definition Player_init :: "int \<Rightarrow> Player" where
  \<comment> \<open>\<open>Player.__init__\<close>; the argument is the value of \<open>pygame.time.get_ticks()\<close> read there.\<close>
  "Player_init ticks =
     \<lparr>p_rect = (get_rect PLAYER_WIDTH PLAYER_HEIGHT)
                 \<lparr>rect_x := (SCREEN_WIDTH - PLAYER_WIDTH) div 2,
                  rect_y := SCREEN_HEIGHT - PLAYER_HEIGHT - 20\<rparr>,
      speed_x = 0,
      lives = PLAYER_LIVES,
      shoot_delay = 250,
      last_shot_time = ticks\<rparr>"

definition Enemy_init :: "int \<Rightarrow> int \<Rightarrow> nat \<Rightarrow> Enemy" where
  "Enemy_init ex ey etype =
     \<lparr>e_rect = (get_rect ENEMY_WIDTH ENEMY_HEIGHT)\<lparr>rect_x := ex, rect_y := ey\<rparr>,
      enemy_type = etype\<rparr>"

definition Bullet_init :: "int \<Rightarrow> int \<Rightarrow> int \<Rightarrow> colour \<Rightarrow> Bullet" where
  "Bullet_init bx by direction col =
     (let r0 = get_rect BULLET_WIDTH BULLET_HEIGHT;
          r1 = set_centerx bx r0;
          r2 = set_centery by r1;
          r3 = (if direction = - 1 then set_bottom by r2 else set_top by r2)
      in \<lparr>b_rect = r3, speed_y = BULLET_SPEED * direction, b_color = col\<rparr>)"

definition Bullet_update :: "Bullet \<Rightarrow> Bullet \<times> bool" where
  \<comment> \<open>\<open>Bullet.update\<close>: the moved bullet, and whether it is still alive (\<open>False\<close>: \<open>kill()\<close>
      removed it from every group).\<close>
  "Bullet_update b =
     (let r = (b_rect b)\<lparr>rect_y := rect_y (b_rect b) + speed_y b\<rparr>
      in (b\<lparr>b_rect := r\<rparr>, \<not> (rect_bottom r < 0 \<or> rect_top r > SCREEN_HEIGHT)))"

datatype key =
  K_SPACE | K_UP | K_w | K_LEFT | K_a | K_RIGHT | K_d | K_r | K_q | K_other

definition Player_update :: "(key \<Rightarrow> bool) \<Rightarrow> Player \<Rightarrow> Player" where
  \<comment> \<open>\<open>Player.update\<close>; the first argument is \<open>pygame.key.get_pressed()\<close>.\<close>
  "Player_update keystate p =
     (let s0 = 0;
          s1 = (if keystate K_LEFT \<or> keystate K_a then - PLAYER_SPEED else s0);
          s2 = (if keystate K_RIGHT \<or> keystate K_d then PLAYER_SPEED else s1);
          r0 = (p_rect p)\<lparr>rect_x := rect_x (p_rect p) + s2\<rparr>;
          r1 = (if rect_left r0 < 0 then set_left 0 r0 else r0);
          r2 = (if rect_right r1 > SCREEN_WIDTH then set_right SCREEN_WIDTH r1 else r1)
      in p\<lparr>speed_x := s2, p_rect := r2\<rparr>)"

section \<open>The state of main_game\<close>

text \<open>
  The local variables of \<open>main_game\<close>. A sprite group keeps its members in insertion order, so
  each group is a list. Every sprite other than the player is added to \<open>all_sprites\<close> and to
  exactly one of \<open>enemies_group\<close>, \<open>player_bullets\<close>, \<open>enemy_bullets\<close> at the same time, and
  \<open>kill()\<close> removes it from all groups at once; \<open>all_sprites\<close> is therefore the player (while
  \<open>player_in_all_sprites\<close> holds) together with the three lists. \<open>cues\<close> is the sequence of
  sounds played so far.
\<close>

datatype phase = playing | game_over | win

record game =
  player :: Player
  player_in_all_sprites :: bool
  enemies_group :: "Enemy list"
  player_bullets :: "Bullet list"
  enemy_bullets :: "Bullet list"
  score :: int
  enemy_current_move_speed_x :: int
  move_enemies_down :: bool
  last_enemy_move_time :: int
  running :: bool
  game_state :: phase
  cues :: "string list"

definition create_enemies :: "Enemy list" where
  \<comment> \<open>\<open>create_enemies\<close>: the group is emptied and filled row by row.\<close>
  "create_enemies =
     (let start_x = (SCREEN_WIDTH - (int ENEMY_COLS * ENEMY_SPACING_X)) div 2
                      + ENEMY_SPACING_X div 2 - ENEMY_WIDTH div 2;
          start_y = 50
      in concat (map (\<lambda>row. map (\<lambda>col.
            Enemy_init (start_x + int col * ENEMY_SPACING_X)
                       (start_y + int row * ENEMY_SPACING_Y) row)
            [0..<ENEMY_COLS]) [0..<ENEMY_ROWS]))"

definition init_game :: "int \<Rightarrow> int \<Rightarrow> game" where
  \<comment> \<open>The prologue of \<open>main_game\<close>, lines 254 to 280. The arguments are the two clock readings:
      in \<open>Player()\<close> and for \<open>last_enemy_move_time\<close>.\<close>
  "init_game t_player t_move =
     \<lparr>player = Player_init t_player,
      player_in_all_sprites = True,
      enemies_group = create_enemies,
      player_bullets = [],
      enemy_bullets = [],
      score = 0,
      enemy_current_move_speed_x = ENEMY_MOVE_SPEED_X,
      move_enemies_down = False,
      last_enemy_move_time = t_move,
      running = True,
      game_state = playing,
      cues = []\<rparr>"

section \<open>Shooting\<close>

definition Player_shoot :: "int \<Rightarrow> game \<Rightarrow> game" where
  \<comment> \<open>\<open>Player.shoot\<close>; \<open>now\<close> is the clock reading of the call.\<close>
  "Player_shoot now g =
     (let p = player g in
      if now - last_shot_time p > shoot_delay p then
        g\<lparr>player := p\<lparr>last_shot_time := now\<rparr>,
          player_bullets := player_bullets g
             @ [Bullet_init (rect_centerx (p_rect p)) (rect_top (p_rect p)) (- 1) YELLOW],
          cues := play ''player_shoot'' (cues g)\<rparr>
      else g)"

definition Enemy_shoot :: "Enemy \<Rightarrow> game \<Rightarrow> game" where
  "Enemy_shoot e g =
     g\<lparr>enemy_bullets := enemy_bullets g
          @ [Bullet_init (rect_centerx (e_rect e)) (rect_bottom (e_rect e)) 1 CYAN],
       cues := play ''enemy_shoot'' (cues g)\<rparr>"

fun enemy_shooting :: "bool list \<Rightarrow> Enemy list \<Rightarrow> game \<Rightarrow> game" where
  \<comment> \<open>Lines 337 to 339. The \<open>n\<close>-th element of the first argument is the outcome of the test
      \<open>random.random() < ENEMY_SHOOT_CHANCE\<close> for the \<open>n\<close>-th enemy of the group; an enemy
      without an element does not shoot.\<close>
  "enemy_shooting ds [] g = g"
| "enemy_shooting [] (e # es) g = g"
| "enemy_shooting (d # ds) (e # es) g =
     enemy_shooting ds es (if d then Enemy_shoot e g else g)"

section \<open>Events\<close>

datatype event = QUIT | KEYDOWN key | KEYUP key | OTHER

fun handle_events :: "(event \<times> int) list \<Rightarrow> game \<Rightarrow> bool + game" where
  \<comment> \<open>Lines 286 to 297. Each event comes with the clock reading \<open>Player.shoot\<close> would make
      while it is handled. \<open>Inl b\<close>: \<open>main_game\<close> returned \<open>b\<close> from inside the loop.\<close>
  "handle_events [] g = Inr g"
| "handle_events ((QUIT, now) # evs) g = handle_events evs (g\<lparr>running := False\<rparr>)"
| "handle_events ((KEYDOWN k, now) # evs) g =
     (if game_state g = playing then
        (if k = K_SPACE \<or> k = K_UP \<or> k = K_w
         then handle_events evs (Player_shoot now g)
         else handle_events evs g)
      else if game_state g = game_over \<or> game_state g = win then
        (if k = K_r then Inl True
         else if k = K_q then handle_events evs (g\<lparr>running := False\<rparr>)
         else handle_events evs g)
      else handle_events evs g)"
| "handle_events ((KEYUP k, now) # evs) g = handle_events evs g"
| "handle_events ((OTHER, now) # evs) g = handle_events evs g"

text \<open>
  \<open>game_over_screen\<close> and \<open>win_screen\<close> draw their text and then wait: each round of the
  \<open>while\<close> loop reads one batch of events. \<open>QUIT\<close> or releasing Q ends the process at once;
  releasing R ends the waiting after the rest of the batch has been read.
\<close>

datatype screen_result = screen_returned | screen_exit

fun scan_batch :: "event list \<Rightarrow> bool \<Rightarrow> bool option" where
  \<comment> \<open>The \<open>for\<close> loop over one batch; the flag is \<open>waiting_for_input\<close>, \<open>None\<close> is
      \<open>sys.exit()\<close>.\<close>
  "scan_batch [] w = Some w"
| "scan_batch (QUIT # evs) w = None"
| "scan_batch (KEYUP k # evs) w =
     (if k = K_q then None
      else if k = K_r then scan_batch evs False
      else scan_batch evs w)"
| "scan_batch (KEYDOWN k # evs) w = scan_batch evs w"
| "scan_batch (OTHER # evs) w = scan_batch evs w"

fun wait_for_input :: "event list list \<Rightarrow> screen_result option" where
  \<comment> \<open>The \<open>while waiting_for_input\<close> loop on the batches that arrive; \<open>None\<close>: all batches
      read and the loop still waits.\<close>
  "wait_for_input [] = None"
| "wait_for_input (b # bs) =
     (case scan_batch b True of
        None \<Rightarrow> Some screen_exit
      | Some False \<Rightarrow> Some screen_returned
      | Some True \<Rightarrow> wait_for_input bs)"

definition game_over_screen :: "event list list \<Rightarrow> screen_result option" where
  "game_over_screen batches = wait_for_input batches"

definition win_screen :: "event list list \<Rightarrow> screen_result option" where
  "win_screen batches = wait_for_input batches"

section \<open>One tick while playing\<close>

definition update_group :: "Bullet list \<Rightarrow> Bullet list" where
  \<comment> \<open>\<open>Group.update\<close> on a group of bullets: each is moved, the killed ones leave.\<close>
  "update_group bs = map fst (filter snd (map Bullet_update bs))"

definition all_sprites_update :: "(key \<Rightarrow> bool) \<Rightarrow> game \<Rightarrow> game" where
  \<comment> \<open>Line 309. \<open>Enemy\<close> does not override \<open>update\<close>, so enemies stay as they are.\<close>
  "all_sprites_update keystate g =
     g\<lparr>player := (if player_in_all_sprites g then Player_update keystate (player g)
                  else player g),
       player_bullets := update_group (player_bullets g),
       enemy_bullets := update_group (enemy_bullets g)\<rparr>"

fun move_loop :: "int \<Rightarrow> Enemy list \<Rightarrow> bool \<Rightarrow> Enemy list \<times> bool" where
  \<comment> \<open>Lines 316 to 319; the flag is \<open>wall_hit\<close>.\<close>
  "move_loop dx [] wall_hit = ([], wall_hit)"
| "move_loop dx (e # es) wall_hit =
     (let e' = e\<lparr>e_rect := (e_rect e)\<lparr>rect_x := rect_x (e_rect e) + dx\<rparr>\<rparr>;
          wall_hit' = (if rect_right (e_rect e') > SCREEN_WIDTH \<or> rect_left (e_rect e') < 0
                       then True else wall_hit);
          (es', wh) = move_loop dx es wall_hit'
      in (e' # es', wh))"

fun descend_loop :: "Enemy list \<Rightarrow> Player \<Rightarrow> phase \<Rightarrow> Enemy list \<times> Player \<times> phase" where
  \<comment> \<open>Lines 326 to 331.\<close>
  "descend_loop [] p st = ([], p, st)"
| "descend_loop (e # es) p st =
     (let e' = e\<lparr>e_rect := (e_rect e)\<lparr>rect_y := rect_y (e_rect e) + ENEMY_MOVE_DOWN_STEP\<rparr>\<rparr>;
          (p', st') = (if rect_bottom (e_rect e') \<ge> rect_top (p_rect p)
                       then (p\<lparr>lives := 0\<rparr>, game_over) else (p, st));
          (es', p'', st'') = descend_loop es p' st'
      in (e' # es', p'', st''))"

definition enemy_movement :: "int \<Rightarrow> game \<Rightarrow> game" where
  \<comment> \<open>Lines 312 to 334; \<open>now\<close> is the clock reading of line 313.\<close>
  "enemy_movement now g =
     (if enemies_group g \<noteq> [] then
        (if now - last_enemy_move_time g \<ge> ENEMY_MOVE_INTERVAL then
           (let (es1, wall_hit) = move_loop (enemy_current_move_speed_x g) (enemies_group g) False;
                g1 = g\<lparr>enemies_group := es1\<rparr>;
                g2 = (if wall_hit
                      then g1\<lparr>enemy_current_move_speed_x := enemy_current_move_speed_x g1 * (- 1),
                              move_enemies_down := True\<rparr>
                      else g1);
                g3 = (if move_enemies_down g2 then
                        (let (es2, p, st) = descend_loop (enemies_group g2) (player g2) (game_state g2)
                         in g2\<lparr>enemies_group := es2, player := p, game_state := st,
                               move_enemies_down := False\<rparr>)
                      else g2)
            in g3\<lparr>last_enemy_move_time := now\<rparr>)
         else g)
      else g)"

definition spritecollide :: "Rect \<Rightarrow> Bullet list \<Rightarrow> Bullet list \<times> Bullet list" where
  \<comment> \<open>\<open>pygame.sprite.spritecollide(sprite, group, True)\<close>: the members of the group whose
      rectangle collides with the sprite's, each of them killed; the second component is the
      group afterwards.\<close>
  "spritecollide r bs = partition (\<lambda>b. colliderect r (b_rect b)) bs"

fun groupcollide :: "Enemy list \<Rightarrow> Bullet list \<Rightarrow> (Enemy \<times> Bullet list) list \<times> Enemy list \<times> Bullet list" where
  \<comment> \<open>\<open>pygame.sprite.groupcollide(enemies_group, player_bullets, True, True)\<close>: for each enemy
      in turn, \<open>spritecollide\<close> against the bullets still in the group; an enemy with a
      collision is entered in the result dictionary and killed. The components are the
      dictionary in insertion order and the two groups afterwards.\<close>
  "groupcollide [] bs = ([], [], bs)"
| "groupcollide (e # es) bs =
     (let (collision, rest) = spritecollide (e_rect e) bs;
          (crashed, es', bs') = groupcollide es rest
      in if collision \<noteq> [] then ((e, collision) # crashed, es', bs')
         else (crashed, e # es', bs'))"

fun enemy_destroyed_loop :: "(Enemy \<times> Bullet list) list \<Rightarrow> game \<Rightarrow> game" where
  \<comment> \<open>Lines 344 to 347.\<close>
  "enemy_destroyed_loop [] g = g"
| "enemy_destroyed_loop (h # hs) g =
     enemy_destroyed_loop hs (g\<lparr>score := score g + 100, cues := play ''enemy_destroyed'' (cues g)\<rparr>)"

definition player_bullets_hit_enemies :: "game \<Rightarrow> game" where
  \<comment> \<open>Lines 343 to 347.\<close>
  "player_bullets_hit_enemies g =
     (let (hits, es', bs') = groupcollide (enemies_group g) (player_bullets g)
      in enemy_destroyed_loop hits (g\<lparr>enemies_group := es', player_bullets := bs'\<rparr>))"

fun player_hit_loop :: "Bullet list \<Rightarrow> game \<Rightarrow> game" where
  \<comment> \<open>Lines 351 to 358.\<close>
  "player_hit_loop [] g = g"
| "player_hit_loop (h # hs) g =
     (let g1 = g\<lparr>player := (player g)\<lparr>lives := lives (player g) - 1\<rparr>,
                 cues := play ''player_hit'' (cues g)\<rparr>;
          g2 = (if lives (player g1) \<le> 0
                then g1\<lparr>game_state := game_over, player_in_all_sprites := False\<rparr>
                else g1)
      in player_hit_loop hs g2)"

definition enemy_bullets_hit_player :: "game \<Rightarrow> game" where
  \<comment> \<open>Lines 350 to 358.\<close>
  "enemy_bullets_hit_player g =
     (let (hits, bs') = spritecollide (p_rect (player g)) (enemy_bullets g)
      in player_hit_loop hits (g\<lparr>enemy_bullets := bs'\<rparr>))"

definition check_win :: "game \<Rightarrow> game" where
  \<comment> \<open>Lines 361 to 363.\<close>
  "check_win g =
     (if enemies_group g = [] \<and> game_state g = playing then g\<lparr>game_state := win\<rparr> else g)"

record inputs =
  events :: "(event \<times> int) list"
  keystate :: "key \<Rightarrow> bool"
  now_move :: int
  shoot_draws :: "bool list"
  screen_batches :: "event list list"

definition playing_updates :: "inputs \<Rightarrow> game \<Rightarrow> game" where
  \<comment> \<open>Lines 309 to 363: the part of the loop body that runs when the phase is \<open>playing\<close>
      after the events.\<close>
  "playing_updates inp g =
     (let g1 = all_sprites_update (keystate inp) g;
          g2 = enemy_movement (now_move inp) g1;
          g3 = enemy_shooting (shoot_draws inp) (enemies_group g2) g2;
          g4 = player_bullets_hit_enemies g3;
          g5 = enemy_bullets_hit_player g4
      in check_win g5)"

datatype outcome = Continue game | Returned bool | SysExit | Waiting

definition main_iteration :: "inputs \<Rightarrow> game \<Rightarrow> outcome" where
  \<comment> \<open>One round of \<open>while running\<close>, lines 282 to 377. \<open>Waiting\<close>: a terminal screen has read
      all the batches given and still waits.\<close>
  "main_iteration inp g =
     (case handle_events (events inp) g of
        Inl b \<Rightarrow> Returned b
      | Inr g1 \<Rightarrow>
          (if game_state g1 \<noteq> playing then
             (case (if game_state g1 = game_over then game_over_screen (screen_batches inp)
                    else win_screen (screen_batches inp)) of
                None \<Rightarrow> Waiting
              | Some screen_exit \<Rightarrow> SysExit
              | Some screen_returned \<Rightarrow> Returned True)
           else
             (let g2 = playing_updates inp g1
              in if running g2 then Continue g2 else SysExit)))"

definition program_step :: "int \<Rightarrow> int \<Rightarrow> inputs \<Rightarrow> game \<Rightarrow> game option" where
  \<comment> \<open>The loop of \<open>__main__\<close>, lines 381 and 382, seen from one round of the inner loop:
      when \<open>main_game\<close> returns \<open>True\<close> it is called again and runs its prologue, with the two
      clock readings given. \<open>None\<close>: the process ended or a screen still waits.\<close>
  "program_step t_player t_move inp g =
     (case main_iteration inp g of
        Continue g' \<Rightarrow> Some g'
      | Returned b \<Rightarrow> (if b then Some (init_game t_player t_move) else None)
      | SysExit \<Rightarrow> None
      | Waiting \<Rightarrow> None)"

section \<open>Predicates used in the statements\<close>

definition cooling :: "int \<Rightarrow> game \<Rightarrow> bool" where
  \<comment> \<open>The player was created at \<open>t0\<close> and has not fired since.\<close>
  "cooling t0 g \<longleftrightarrow>
     last_shot_time (player g) = t0 \<and> shoot_delay (player g) = 250 \<and> player_bullets g = []"

definition shifted :: "int \<Rightarrow> int \<Rightarrow> Enemy \<Rightarrow> Enemy" where
  \<comment> \<open>The enemy moved by \<open>dx\<close> to the right and \<open>dy\<close> down.\<close>
  "shifted dx dy e =
     e\<lparr>e_rect := (e_rect e)\<lparr>rect_x := rect_x (e_rect e) + dx, rect_y := rect_y (e_rect e) + dy\<rparr>\<rparr>"

definition breaches :: "int \<Rightarrow> Enemy list \<Rightarrow> bool" where
  \<comment> \<open>Moved by \<open>dx\<close>, some enemy of the list is past the right or the left screen boundary.\<close>
  "breaches dx es \<longleftrightarrow>
     list_ex (\<lambda>e. rect_right (e_rect e) + dx > SCREEN_WIDTH \<or> rect_left (e_rect e) + dx < 0) es"

definition reaches :: "Player \<Rightarrow> Enemy list \<Rightarrow> bool" where
  \<comment> \<open>Dropped by the descent step, some enemy's bottom edge is at or below the player's top.\<close>
  "reaches p es \<longleftrightarrow>
     list_ex (\<lambda>e. rect_bottom (e_rect e) + ENEMY_MOVE_DOWN_STEP \<ge> rect_top (p_rect p)) es"

definition fired :: "bool list \<Rightarrow> Enemy list \<Rightarrow> Bullet list" where
  \<comment> \<open>The bullets of the enemies whose draw succeeded, in the order of the group.\<close>
  "fired ds es =
     map (\<lambda>e. Bullet_init (rect_centerx (e_rect e)) (rect_bottom (e_rect e)) 1 CYAN)
       (map snd (filter fst (zip ds es)))"

definition overlaps :: "Enemy \<Rightarrow> Bullet \<Rightarrow> bool" where
  \<comment> \<open>The test \<open>groupcollide\<close> makes between an enemy and a player bullet.\<close>
  "overlaps e b = colliderect (e_rect e) (b_rect b)"

definition hitting :: "game \<Rightarrow> Bullet list" where
  \<comment> \<open>The enemy bullets whose rectangle collides with the player's.\<close>
  "hitting g = filter (\<lambda>b. colliderect (p_rect (player g)) (b_rect b)) (enemy_bullets g)"

definition advance :: "Bullet \<Rightarrow> Bullet" where
  \<comment> \<open>The bullet one tick further along its flight.\<close>
  "advance b = b\<lparr>b_rect := (b_rect b)\<lparr>rect_y := rect_y (b_rect b) + speed_y b\<rparr>\<rparr>"

definition off_screen :: "Bullet \<Rightarrow> bool" where
  \<comment> \<open>The bullet is wholly above the top or wholly below the bottom of the screen.\<close>
  "off_screen b \<longleftrightarrow> rect_bottom (b_rect b) < 0 \<or> rect_top (b_rect b) > SCREEN_HEIGHT"

definition flying :: "game \<Rightarrow> bool" where
  \<comment> \<open>Player bullets fly up and enemy bullets fly down, all at the bullet speed.\<close>
  "flying g \<longleftrightarrow>
     list_all (\<lambda>b. speed_y b = - BULLET_SPEED) (player_bullets g)
     \<and> list_all (\<lambda>b. speed_y b = BULLET_SPEED) (enemy_bullets g)"

section \<open>Scenarios\<close>

definition bullet_at :: "int \<Rightarrow> int \<Rightarrow> int \<Rightarrow> colour \<Rightarrow> Bullet" where
  \<comment> \<open>A bullet in flight, with its top-left corner at the given position.\<close>
  "bullet_at bx by vy col =
     \<lparr>b_rect = \<lparr>rect_x = bx, rect_y = by, rect_w = BULLET_WIDTH, rect_h = BULLET_HEIGHT\<rparr>,
      speed_y = vy, b_color = col\<rparr>"

definition late_descent_game :: game where
  \<comment> \<open>The last enemy, of the bottom row, is one step from the right wall and one descent
      above the player's row; the player stands at the right edge and has just fired.\<close>
  "late_descent_game =
     (init_game 0 0)
       \<lparr>player := (Player_init 0)\<lparr>p_rect := (p_rect (Player_init 0))\<lparr>rect_x := 750\<rparr>\<rparr>,
        enemies_group := [Enemy_init 760 530 4],
        player_bullets := [Bullet_init 775 560 (- 1) YELLOW]\<rparr>"

definition late_descent_inputs :: inputs where
  \<comment> \<open>No event, no key held, the formation is due to step, the enemy does not shoot.\<close>
  "late_descent_inputs =
     \<lparr>events = [], keystate = (\<lambda>k. False), now_move = 500, shoot_draws = [False],
      screen_batches = []\<rparr>"

definition double_hit_game :: game where
  \<comment> \<open>One life left and two enemy bullets of one column just above the ship.\<close>
  "double_hit_game =
     (init_game 0 0)
       \<lparr>player := (Player_init 0)\<lparr>lives := 1\<rparr>,
        enemies_group := [Enemy_init 370 50 0, Enemy_init 370 90 1],
        enemy_bullets := [bullet_at 388 544 6 CYAN, bullet_at 388 542 6 CYAN]\<rparr>"

definition double_hit_inputs :: inputs where
  \<comment> \<open>No event, no key held, the formation is not due to step, no enemy shoots.\<close>
  "double_hit_inputs =
     \<lparr>events = [], keystate = (\<lambda>k. False), now_move = 16, shoot_draws = [False, False],
      screen_batches = []\<rparr>"


definition flight_game :: game where
  \<comment> \<open>Three player bullets: below an enemy, at the top of the screen, in mid-flight.\<close>
  "flight_game =
     (init_game 0 0)
       \<lparr>enemies_group := [Enemy_init 110 50 0],
        player_bullets := [bullet_at 120 75 (- 6) YELLOW, bullet_at 398 (- 10) (- 6) YELLOW,
                           bullet_at 300 300 (- 6) YELLOW]\<rparr>"

definition flight_inputs :: inputs where
  \<comment> \<open>No event, no key held, the formation is not due to step, the enemy does not shoot.\<close>
  "flight_inputs =
     \<lparr>events = [], keystate = (\<lambda>k. False), now_move = 16, shoot_draws = [False],
      screen_batches = []\<rparr>"

definition finished_game :: game where
  \<comment> \<open>A game that ended in the phase \<open>game_over\<close>, with sprites and score left over.\<close>
  "finished_game =
     (init_game 0 0)
       \<lparr>player := (Player_init 0)\<lparr>lives := 0, last_shot_time := 8000\<rparr>,
        player_in_all_sprites := False,
        enemies_group := [Enemy_init 300 330 2],
        player_bullets := [bullet_at 398 200 (- 6) YELLOW],
        enemy_bullets := [bullet_at 318 400 6 CYAN],
        score := 4900,
        enemy_current_move_speed_x := - 1,
        last_enemy_move_time := 8500,
        game_state := game_over\<rparr>"

section \<open>Basic facts\<close>

lemmas consts_defs =
  SCREEN_WIDTH_def SCREEN_HEIGHT_def PLAYER_WIDTH_def PLAYER_HEIGHT_def PLAYER_SPEED_def
  PLAYER_LIVES_def BULLET_WIDTH_def BULLET_HEIGHT_def BULLET_SPEED_def ENEMY_COLS_def
  ENEMY_ROWS_def ENEMY_SPACING_X_def ENEMY_SPACING_Y_def ENEMY_WIDTH_def ENEMY_HEIGHT_def
  ENEMY_MOVE_SPEED_X_def ENEMY_MOVE_DOWN_STEP_def ENEMY_MOVE_INTERVAL_def YELLOW_def CYAN_def

lemmas rect_defs =
  get_rect_def rect_left_def rect_top_def rect_right_def rect_bottom_def rect_centerx_def
  set_left_def set_right_def set_top_def set_bottom_def set_centerx_def set_centery_def

lemma play_known [simp]:
  "play ''player_shoot'' cs = cs @ [''player_shoot'']"
  "play ''enemy_shoot'' cs = cs @ [''enemy_shoot'']"
  "play ''enemy_destroyed'' cs = cs @ [''enemy_destroyed'']"
  "play ''player_hit'' cs = cs @ [''player_hit'']"
  by (simp_all add: play_def sounds_def)

subsection \<open>What a tick leaves alone\<close>

lemma enemy_shooting_frame:
  "player (enemy_shooting ds es g) = player g"
  "player_bullets (enemy_shooting ds es g) = player_bullets g"
  "game_state (enemy_shooting ds es g) = game_state g"
  "enemies_group (enemy_shooting ds es g) = enemies_group g"
  "score (enemy_shooting ds es g) = score g"
  "running (enemy_shooting ds es g) = running g"
  by (induction ds es g rule: enemy_shooting.induct) (simp_all add: Enemy_shoot_def)

lemma enemy_destroyed_loop_frame:
  "player (enemy_destroyed_loop hs g) = player g"
  "player_bullets (enemy_destroyed_loop hs g) = player_bullets g"
  "enemy_bullets (enemy_destroyed_loop hs g) = enemy_bullets g"
  "enemies_group (enemy_destroyed_loop hs g) = enemies_group g"
  "game_state (enemy_destroyed_loop hs g) = game_state g"
  "running (enemy_destroyed_loop hs g) = running g"
  by (induction hs arbitrary: g) simp_all

lemma enemy_destroyed_loop_score:
  "score (enemy_destroyed_loop hs g) = score g + 100 * int (length hs)"
  by (induction hs arbitrary: g) simp_all

lemma player_hit_loop_frame:
  "last_shot_time (player (player_hit_loop hs g)) = last_shot_time (player g)"
  "shoot_delay (player (player_hit_loop hs g)) = shoot_delay (player g)"
  "p_rect (player (player_hit_loop hs g)) = p_rect (player g)"
  "player_bullets (player_hit_loop hs g) = player_bullets g"
  "enemy_bullets (player_hit_loop hs g) = enemy_bullets g"
  "enemies_group (player_hit_loop hs g) = enemies_group g"
  "score (player_hit_loop hs g) = score g"
  "running (player_hit_loop hs g) = running g"
  by (induction hs arbitrary: g) (simp_all add: Let_def)

lemma descend_loop_frame:
  "descend_loop es p st = (es', p', st') \<Longrightarrow>
     last_shot_time p' = last_shot_time p \<and> shoot_delay p' = shoot_delay p \<and> p_rect p' = p_rect p"
  by (induction es arbitrary: p st es' p' st')
     (auto simp: Let_def split: prod.splits if_splits)

lemma enemy_movement_frame:
  "last_shot_time (player (enemy_movement now g)) = last_shot_time (player g)"
  "shoot_delay (player (enemy_movement now g)) = shoot_delay (player g)"
  "p_rect (player (enemy_movement now g)) = p_rect (player g)"
  "player_bullets (enemy_movement now g) = player_bullets g"
  "enemy_bullets (enemy_movement now g) = enemy_bullets g"
  "score (enemy_movement now g) = score g"
  "running (enemy_movement now g) = running g"
  by (auto simp: enemy_movement_def Let_def split: prod.splits dest: descend_loop_frame)

lemma Player_update_frame:
  "last_shot_time (Player_update ks p) = last_shot_time p"
  "shoot_delay (Player_update ks p) = shoot_delay p"
  "lives (Player_update ks p) = lives p"
  by (simp_all add: Player_update_def Let_def)

lemma groupcollide_no_bullets: "groupcollide es [] = ([], es, [])"
  by (induction es) (simp_all add: spritecollide_def)

lemma playing_updates_cooldown_frame:
  "last_shot_time (player (playing_updates inp g)) = last_shot_time (player g)"
  "shoot_delay (player (playing_updates inp g)) = shoot_delay (player g)"
  by (simp_all add: playing_updates_def Let_def check_win_def enemy_bullets_hit_player_def
        player_bullets_hit_enemies_def player_hit_loop_frame enemy_destroyed_loop_frame
        enemy_shooting_frame enemy_movement_frame all_sprites_update_def Player_update_frame
        split: prod.splits)

lemma playing_updates_no_player_bullets:
  "player_bullets g = [] \<Longrightarrow> player_bullets (playing_updates inp g) = []"
  by (simp add: playing_updates_def Let_def check_win_def enemy_bullets_hit_player_def
        player_bullets_hit_enemies_def player_hit_loop_frame enemy_destroyed_loop_frame
        enemy_shooting_frame enemy_movement_frame all_sprites_update_def update_group_def
        groupcollide_no_bullets
        split: prod.splits)

lemma playing_updates_running:
  "running (playing_updates inp g) = running g"
  by (simp add: playing_updates_def Let_def check_win_def enemy_bullets_hit_player_def
        player_bullets_hit_enemies_def player_hit_loop_frame enemy_destroyed_loop_frame
        enemy_shooting_frame enemy_movement_frame all_sprites_update_def
        split: prod.splits)

subsection \<open>The loops in closed form\<close>

lemma shifted_0_0 [simp]: "shifted 0 0 e = e"
  by (simp add: shifted_def)

lemma shifted_shifted: "shifted dx dy (shifted dx' dy' e) = shifted (dx' + dx) (dy' + dy) e"
  by (simp add: shifted_def)

lemma move_loop_eq:
  "move_loop dx es wh = (map (shifted dx 0) es, wh \<or> breaches dx es)"
  by (induction es arbitrary: wh)
     (auto simp: shifted_def breaches_def Let_def rect_right_def rect_left_def)

lemma descend_loop_eq:
  "descend_loop es p st =
     (map (shifted 0 ENEMY_MOVE_DOWN_STEP) es,
      if reaches p es then (p\<lparr>lives := 0\<rparr>, game_over) else (p, st))"
proof (induction es arbitrary: p st)
  case Nil
  show ?case by (simp add: reaches_def)
next
  case (Cons e es)
  have r: "reaches (p\<lparr>lives := 0\<rparr>) es = reaches p es"
    by (simp add: reaches_def)
  show ?case
    by (simp add: Cons.IH r Let_def) (simp add: reaches_def shifted_def rect_bottom_def)
qed

lemma enemy_movement_eq:
  "enemy_movement now g =
     (if enemies_group g = [] \<or> now - last_enemy_move_time g < ENEMY_MOVE_INTERVAL then g
      else let dx = enemy_current_move_speed_x g;
               hit = breaches dx (enemies_group g);
               down = (hit \<or> move_enemies_down g);
               dead = (down \<and> reaches (player g) (map (shifted dx 0) (enemies_group g)))
           in g\<lparr>enemies_group :=
                  map (shifted dx (if down then ENEMY_MOVE_DOWN_STEP else 0)) (enemies_group g),
                enemy_current_move_speed_x := (if hit then - dx else dx),
                move_enemies_down := False,
                player := (if dead then (player g)\<lparr>lives := 0\<rparr> else player g),
                game_state := (if dead then game_over else game_state g),
                last_enemy_move_time := now\<rparr>)"
  by (auto simp: enemy_movement_def move_loop_eq descend_loop_eq Let_def shifted_shifted o_def
      intro!: game.equality)


lemma reaches_shifted_x [simp]: "reaches p (map (shifted dx 0) es) = reaches p es"
  by (simp add: reaches_def shifted_def list_ex_iff rect_bottom_def)

lemma enemy_shooting_eq:
  "enemy_shooting ds es g =
     g\<lparr>enemy_bullets := enemy_bullets g @ fired ds es,
       cues := cues g @ replicate (length (fired ds es)) ''enemy_shoot''\<rparr>"
proof (induction ds es g rule: enemy_shooting.induct)
  case (3 d ds e es g)
  then show ?case
    by (simp add: fired_def Enemy_shoot_def replicate_app_Cons_same)
qed (simp_all add: fired_def)

lemma enemy_destroyed_loop_eq:
  "enemy_destroyed_loop hs g =
     g\<lparr>score := score g + 100 * int (length hs),
       cues := cues g @ replicate (length hs) ''enemy_destroyed''\<rparr>"
  by (induction hs arbitrary: g) (simp_all add: replicate_app_Cons_same algebra_simps)

lemma player_hit_loop_eq:
  "player_hit_loop hs g =
     (let dead = (hs \<noteq> [] \<and> lives (player g) - int (length hs) \<le> 0)
      in g\<lparr>player := (player g)\<lparr>lives := lives (player g) - int (length hs)\<rparr>,
           cues := cues g @ replicate (length hs) ''player_hit'',
           game_state := (if dead then game_over else game_state g),
           player_in_all_sprites := (if dead then False else player_in_all_sprites g)\<rparr>)"
proof (induction hs arbitrary: g)
  case Nil
  show ?case by simp
next
  case (Cons h hs)
  define g1 where "g1 = g\<lparr>player := (player g)\<lparr>lives := lives (player g) - 1\<rparr>,
                 cues := play ''player_hit'' (cues g)\<rparr>"
  define g2 where "g2 = (if lives (player g1) \<le> 0
                then g1\<lparr>game_state := game_over, player_in_all_sprites := False\<rparr>
                else g1)"
  have "player_hit_loop (h # hs) g = player_hit_loop hs g2"
    by (simp add: g1_def g2_def Let_def)
  also have "\<dots> = (let dead = (hs \<noteq> [] \<and> lives (player g2) - int (length hs) \<le> 0)
      in g2\<lparr>player := (player g2)\<lparr>lives := lives (player g2) - int (length hs)\<rparr>,
           cues := cues g2 @ replicate (length hs) ''player_hit'',
           game_state := (if dead then game_over else game_state g2),
           player_in_all_sprites := (if dead then False else player_in_all_sprites g2)\<rparr>)"
    by (rule Cons.IH)
  also have "\<dots> = (let dead = (h # hs \<noteq> [] \<and> lives (player g) - int (length (h # hs)) \<le> 0)
      in g\<lparr>player := (player g)\<lparr>lives := lives (player g) - int (length (h # hs))\<rparr>,
           cues := cues g @ replicate (length (h # hs)) ''player_hit'',
           game_state := (if dead then game_over else game_state g),
           player_in_all_sprites := (if dead then False else player_in_all_sprites g)\<rparr>)"
    by (auto simp: g1_def g2_def Let_def replicate_app_Cons_same)
  finally show ?case .
qed


subsection \<open>groupcollide\<close>

lemma spritecollide_eq:
  "spritecollide r bs =
     (filter (\<lambda>b. colliderect r (b_rect b)) bs, filter (\<lambda>b. \<not> colliderect r (b_rect b)) bs)"
  by (simp add: spritecollide_def o_def)

lemma groupcollide_step:
  assumes "groupcollide es (filter (\<lambda>b. \<not> overlaps e b) bs) = (c1, e1, b1)"
    and "groupcollide (e # es) bs = (crashed, es', bs')"
  obtains (miss) "filter (\<lambda>b. overlaps e b) bs = []" "crashed = c1" "es' = e # e1" "bs' = b1"
  | (hit) "filter (\<lambda>b. overlaps e b) bs \<noteq> []"
      "crashed = (e, filter (\<lambda>b. overlaps e b) bs) # c1" "es' = e1" "bs' = b1"
proof -
  define coll where "coll = filter (\<lambda>b. overlaps e b) bs"
  have "groupcollide (e # es) bs
      = (if coll \<noteq> [] then ((e, coll) # c1, e1, b1) else (c1, e # e1, b1))"
    using assms(1) by (simp add: spritecollide_eq overlaps_def coll_def)
  with assms(2) have "coll = [] \<and> crashed = c1 \<and> es' = e # e1 \<and> bs' = b1
      \<or> coll \<noteq> [] \<and> crashed = (e, coll) # c1 \<and> es' = e1 \<and> bs' = b1"
    by (cases "coll = []") simp_all
  then show thesis
    using miss hit unfolding coll_def by blast
qed

lemma groupcollide_bullets:
  "groupcollide es bs = (crashed, es', bs') \<Longrightarrow>
     bs' = filter (\<lambda>b. \<not> list_ex (\<lambda>e. overlaps e b) es) bs"
proof (induction es arbitrary: bs crashed es' bs')
  case Nil
  then show ?case by simp
next
  case (Cons e es)
  obtain c1 e1 b1 where r: "groupcollide es (filter (\<lambda>b. \<not> overlaps e b) bs) = (c1, e1, b1)"
    by (cases "groupcollide es (filter (\<lambda>b. \<not> overlaps e b) bs)")
  from r Cons.prems have "bs' = b1"
    by (cases rule: groupcollide_step)
  with Cons.IH [OF r] show ?case
    by (simp add: conj_commute)
qed

lemma groupcollide_partition_bullets:
  "groupcollide es bs = (crashed, es', bs') \<Longrightarrow>
     mset bs = mset bs' + mset (concat (map snd crashed))"
proof (induction es arbitrary: bs crashed es' bs')
  case Nil
  then show ?case by simp
next
  case (Cons e es)
  obtain c1 e1 b1 where r: "groupcollide es (filter (\<lambda>b. \<not> overlaps e b) bs) = (c1, e1, b1)"
    by (cases "groupcollide es (filter (\<lambda>b. \<not> overlaps e b) bs)")
  have "mset bs = mset (filter (\<lambda>b. overlaps e b) bs) + mset (filter (\<lambda>b. \<not> overlaps e b) bs)"
    by simp
  also have "mset (filter (\<lambda>b. \<not> overlaps e b) bs) = mset b1 + mset (concat (map snd c1))"
    by (rule Cons.IH [OF r])
  finally have *: "mset bs
      = mset (filter (\<lambda>b. overlaps e b) bs) + (mset b1 + mset (concat (map snd c1)))" .
  from r Cons.prems show ?case
  proof (cases rule: groupcollide_step)
    case miss
    show ?thesis
      by (subst *) (simp only: miss, simp)
  next
    case hit
    show ?thesis
      by (subst *) (simp only: hit, simp)
  qed
qed

lemma groupcollide_partition_enemies:
  "groupcollide es bs = (crashed, es', bs') \<Longrightarrow> mset es = mset es' + mset (map fst crashed)"
proof (induction es arbitrary: bs crashed es' bs')
  case Nil
  then show ?case by simp
next
  case (Cons e es)
  obtain c1 e1 b1 where r: "groupcollide es (filter (\<lambda>b. \<not> overlaps e b) bs) = (c1, e1, b1)"
    by (cases "groupcollide es (filter (\<lambda>b. \<not> overlaps e b) bs)")
  from r Cons.prems show ?case
    using Cons.IH [OF r] by (cases rule: groupcollide_step) simp_all
qed

lemma groupcollide_crashed:
  "groupcollide es bs = (crashed, es', bs') \<Longrightarrow> (e, hits) \<in> set crashed \<Longrightarrow>
     hits \<noteq> [] \<and> set hits \<subseteq> set bs \<and> (\<forall>b \<in> set hits. overlaps e b)"
proof (induction es arbitrary: bs crashed es' bs')
  case Nil
  then show ?case by simp
next
  case (Cons e0 es)
  obtain c1 e1 b1 where r: "groupcollide es (filter (\<lambda>b. \<not> overlaps e0 b) bs) = (c1, e1, b1)"
    by (cases "groupcollide es (filter (\<lambda>b. \<not> overlaps e0 b) bs)")
  from r Cons.prems(1) show ?case
  proof (cases rule: groupcollide_step)
    case miss
    with Cons.prems(2) have "(e, hits) \<in> set c1" by simp
    from Cons.IH [OF r this] show ?thesis by auto
  next
    case hit
    with Cons.prems(2) consider "e = e0" "hits = filter (\<lambda>b. overlaps e0 b) bs" | "(e, hits) \<in> set c1"
      by auto
    then show ?thesis
    proof cases
      case 1
      with hit(1) show ?thesis by auto
    next
      case 2
      from Cons.IH [OF r 2] show ?thesis by auto
    qed
  qed
qed

lemma groupcollide_first_overlap:
  "groupcollide (pre @ e # post) bs = (crashed, es', bs') \<Longrightarrow> b \<in> set bs \<Longrightarrow> overlaps e b \<Longrightarrow>
   \<forall>e' \<in> set pre. \<not> overlaps e' b \<Longrightarrow> \<exists>hits. (e, hits) \<in> set crashed \<and> b \<in> set hits"
proof (induction pre arbitrary: bs crashed es' bs')
  case Nil
  obtain c1 e1 b1 where r: "groupcollide post (filter (\<lambda>b. \<not> overlaps e b) bs) = (c1, e1, b1)"
    by (cases "groupcollide post (filter (\<lambda>b. \<not> overlaps e b) bs)")
  from Nil.prems(2,3) have b: "b \<in> set (filter (\<lambda>b. overlaps e b) bs)"
    by simp
  have "groupcollide (e # post) bs = (crashed, es', bs')"
    using Nil.prems(1) by (simp only: append_Nil)
  with r show ?case
  proof (cases rule: groupcollide_step)
    case miss
    with b show ?thesis by simp
  next
    case hit
    with b show ?thesis by auto
  qed
next
  case (Cons e0 pre)
  obtain c1 e1 b1 where r: "groupcollide (pre @ e # post) (filter (\<lambda>b. \<not> overlaps e0 b) bs) = (c1, e1, b1)"
    by (cases "groupcollide (pre @ e # post) (filter (\<lambda>b. \<not> overlaps e0 b) bs)")
  from Cons.prems have b: "b \<in> set (filter (\<lambda>b. \<not> overlaps e0 b) bs)"
    and pre: "\<forall>e' \<in> set pre. \<not> overlaps e' b"
    by simp_all
  from Cons.IH [OF r b Cons.prems(3) pre] obtain hits where h: "(e, hits) \<in> set c1" "b \<in> set hits"
    by blast
  have "groupcollide (e0 # pre @ e # post) bs = (crashed, es', bs')"
    using Cons.prems(1) by simp
  with r have "set c1 \<subseteq> set crashed"
    by (cases rule: groupcollide_step) auto
  with h show ?case by blast
qed

subsection \<open>The tick around the formation controller\<close>

lemma breaches_Nil [simp]: "\<not> breaches dx []"
  by (simp add: breaches_def)

lemma reaches_Nil [simp]: "\<not> reaches p []"
  by (simp add: reaches_def)

lemma breaches_shifted:
  "breaches dx (map (shifted dx' dy) es) = breaches (dx' + dx) es"
  by (simp add: breaches_def shifted_def list_ex_iff rect_right_def rect_left_def ac_simps)

lemma groupcollide_survivors:
  "groupcollide es bs = (crashed, es', bs') \<Longrightarrow> set es' \<subseteq> set es"
  using groupcollide_partition_enemies [of es bs crashed es' bs']
  by (metis mset_subset_eqD mset_subset_eq_add_left set_mset_mset subsetI)

lemma Player_update_top:
  "rect_top (p_rect (Player_update ks p)) = rect_top (p_rect p)"
  by (simp add: Player_update_def Let_def rect_defs)

lemma reaches_cong_top:
  "rect_top (p_rect p) = rect_top (p_rect q) \<Longrightarrow> reaches p es = reaches q es"
  by (simp add: reaches_def)

lemma all_sprites_update_formation:
  "enemies_group (all_sprites_update ks g) = enemies_group g"
  "enemy_current_move_speed_x (all_sprites_update ks g) = enemy_current_move_speed_x g"
  "move_enemies_down (all_sprites_update ks g) = move_enemies_down g"
  "last_enemy_move_time (all_sprites_update ks g) = last_enemy_move_time g"
  "game_state (all_sprites_update ks g) = game_state g"
  "score (all_sprites_update ks g) = score g"
  "reaches (player (all_sprites_update ks g)) es = reaches (player g) es"
  by (simp_all add: all_sprites_update_def reaches_def Player_update_top)

text \<open>The tick, phase by phase, in terms of the state after the formation controller.\<close>

lemma playing_updates_formation:
  fixes inp g
  defines "g2 \<equiv> enemy_movement (now_move inp) (all_sprites_update (keystate inp) g)"
  shows "enemy_current_move_speed_x (playing_updates inp g) = enemy_current_move_speed_x g2"
    and "move_enemies_down (playing_updates inp g) = move_enemies_down g2"
    and "last_enemy_move_time (playing_updates inp g) = last_enemy_move_time g2"
    and "set (enemies_group (playing_updates inp g)) \<subseteq> set (enemies_group g2)"
    and "game_state g2 = game_over \<Longrightarrow> game_state (playing_updates inp g) = game_over"
proof -
  obtain crashed es' bs' where gc: "groupcollide (enemies_group g2) (player_bullets g2) = (crashed, es', bs')"
    by (cases "groupcollide (enemies_group g2) (player_bullets g2)")
  note defs = playing_updates_def Let_def check_win_def enemy_bullets_hit_player_def
    player_bullets_hit_enemies_def player_hit_loop_eq enemy_destroyed_loop_eq enemy_shooting_eq
    spritecollide_eq g2_def [symmetric]
  show "enemy_current_move_speed_x (playing_updates inp g) = enemy_current_move_speed_x g2"
    by (simp add: defs gc)
  show "move_enemies_down (playing_updates inp g) = move_enemies_down g2"
    by (simp add: defs gc)
  show "last_enemy_move_time (playing_updates inp g) = last_enemy_move_time g2"
    by (simp add: defs gc)
  show "set (enemies_group (playing_updates inp g)) \<subseteq> set (enemies_group g2)"
    using groupcollide_survivors [OF gc] by (simp add: defs gc)
  show "game_state (playing_updates inp g) = game_over" if "game_state g2 = game_over"
    using that by (simp add: defs gc)
qed


lemma create_enemies_in_bounds:
  "\<not> breaches ENEMY_MOVE_SPEED_X create_enemies"
  by (auto simp: breaches_def list_ex_iff create_enemies_def Enemy_init_def rect_defs consts_defs)

lemma length_create_enemies: "length create_enemies = ENEMY_ROWS * ENEMY_COLS"
  by (simp add: create_enemies_def Let_def length_concat o_def sum_list_triv)

lemma create_enemies_nonempty: "create_enemies \<noteq> []"
  using length_create_enemies by (auto simp: ENEMY_ROWS_def ENEMY_COLS_def)

lemma fold_enemy_movement_idle:
  "\<forall>t \<in> set ts. t - last_enemy_move_time g < ENEMY_MOVE_INTERVAL \<Longrightarrow> fold enemy_movement ts g = g"
  by (induction ts) (simp_all add: enemy_movement_eq)

subsection \<open>Events and terminal phases\<close>

lemma Player_shoot_game_state: "game_state (Player_shoot now g) = game_state g"
  by (simp add: Player_shoot_def Let_def)

lemma handle_events_game_state:
  "handle_events evs g = Inr g' \<Longrightarrow> game_state g' = game_state g"
proof (induction evs arbitrary: g)
  case Nil
  then show ?case by simp
next
  case (Cons et evs)
  obtain e now where et: "et = (e, now)"
    by (cases et)
  have "handle_events ((e, now) # evs) g = Inl True
      \<or> handle_events ((e, now) # evs) g = handle_events evs g
      \<or> handle_events ((e, now) # evs) g = handle_events evs (Player_shoot now g)
      \<or> handle_events ((e, now) # evs) g = handle_events evs (g\<lparr>running := False\<rparr>)"
    by (cases e; cases "game_state g") simp_all
  with Cons.prems et
  consider "handle_events evs g = Inr g'" | "handle_events evs (Player_shoot now g) = Inr g'"
    | "handle_events evs (g\<lparr>running := False\<rparr>) = Inr g'"
    by auto
  then show ?case
  proof cases
    case 1
    then show ?thesis by (rule Cons.IH)
  next
    case 2
    from Cons.IH [OF 2] show ?thesis by (simp add: Player_shoot_game_state)
  next
    case 3
    from Cons.IH [OF 3] show ?thesis by simp
  qed
qed

lemma main_iteration_terminal:
  "game_state g \<noteq> playing \<Longrightarrow> main_iteration inp g \<noteq> Continue g'"
  by (auto simp: main_iteration_def Let_def dest: handle_events_game_state
      split: sum.splits option.splits screen_result.splits)


lemmas tick_eval =
  playing_updates_def all_sprites_update_def update_group_def Bullet_update_def Player_update_def
  enemy_movement_eq breaches_def reaches_def shifted_def player_bullets_hit_enemies_def
  enemy_bullets_hit_player_def spritecollide_def colliderect_def check_win_def init_game_def
  Player_init_def Enemy_init_def Bullet_init_def Enemy_shoot_def Let_def rect_defs consts_defs

subsection \<open>The collision passes and the bullets of a tick\<close>

lemma length_le_concat:
  "\<forall>x \<in> set xs. snd x \<noteq> [] \<Longrightarrow> length xs \<le> length (concat (map snd xs))"
proof (induction xs)
  case Nil
  show ?case by simp
next
  case (Cons x xs)
  then have "1 \<le> length (snd x)"
    by (cases "snd x") simp_all
  with Cons show ?case by simp
qed

lemma player_bullets_hit_enemies_eq:
  "groupcollide (enemies_group g) (player_bullets g) = (crashed, es', bs') \<Longrightarrow>
   player_bullets_hit_enemies g =
     g\<lparr>enemies_group := es', player_bullets := bs',
       score := score g + 100 * int (length crashed),
       cues := cues g @ replicate (length crashed) ''enemy_destroyed''\<rparr>"
  by (simp add: player_bullets_hit_enemies_def enemy_destroyed_loop_eq)

lemma enemy_bullets_hit_player_eq:
  "enemy_bullets_hit_player g =
     (let n = length (hitting g); dead = (hitting g \<noteq> [] \<and> lives (player g) - int n \<le> 0)
      in g\<lparr>enemy_bullets := filter (\<lambda>b. \<not> colliderect (p_rect (player g)) (b_rect b)) (enemy_bullets g),
           player := (player g)\<lparr>lives := lives (player g) - int n\<rparr>,
           cues := cues g @ replicate n ''player_hit'',
           game_state := (if dead then game_over else game_state g),
           player_in_all_sprites := (if dead then False else player_in_all_sprites g)\<rparr>)"
  by (simp add: enemy_bullets_hit_player_def spritecollide_eq player_hit_loop_eq hitting_def Let_def)

lemma player_bullets_hit_enemies_player:
  "player (player_bullets_hit_enemies g) = player g"
  by (simp add: player_bullets_hit_enemies_def enemy_destroyed_loop_frame split: prod.splits)

lemma check_win_lives: "lives (player (check_win g)) = lives (player g)"
  by (simp add: check_win_def)

lemma Bullet_update_eq: "Bullet_update b = (advance b, \<not> off_screen (advance b))"
  by (simp add: Bullet_update_def advance_def off_screen_def Let_def)

lemma update_group_eq:
  "update_group bs = filter (\<lambda>b. \<not> off_screen b) (map advance bs)"
  by (induction bs) (simp_all add: update_group_def Bullet_update_eq)

lemma playing_updates_bullets:
  fixes inp g
  defines "g1 \<equiv> all_sprites_update (keystate inp) g"
  defines "g2 \<equiv> enemy_movement (now_move inp) g1"
  shows "player_bullets (playing_updates inp g)
      = filter (\<lambda>b. \<not> list_ex (\<lambda>e. overlaps e b) (enemies_group g2))
          (filter (\<lambda>b. \<not> off_screen b) (map advance (player_bullets g)))"
    and "enemy_bullets (playing_updates inp g)
      = filter (\<lambda>b. \<not> colliderect (p_rect (player g1)) (b_rect b))
          (filter (\<lambda>b. \<not> off_screen b) (map advance (enemy_bullets g))
           @ fired (shoot_draws inp) (enemies_group g2))"
proof -
  let ?g3 = "enemy_shooting (shoot_draws inp) (enemies_group g2) g2"
  obtain crashed es' bs' where gc: "groupcollide (enemies_group ?g3) (player_bullets ?g3) = (crashed, es', bs')"
    by (cases "groupcollide (enemies_group ?g3) (player_bullets ?g3)")
  have pb: "player_bullets ?g3 = filter (\<lambda>b. \<not> off_screen b) (map advance (player_bullets g))"
    by (simp add: enemy_shooting_frame g2_def enemy_movement_frame g1_def all_sprites_update_def
          update_group_eq)
  have eb: "enemy_bullets ?g3 = filter (\<lambda>b. \<not> off_screen b) (map advance (enemy_bullets g))
           @ fired (shoot_draws inp) (enemies_group g2)"
    by (simp add: enemy_shooting_eq g2_def enemy_movement_frame g1_def all_sprites_update_def
          update_group_eq)
  have pr: "p_rect (player ?g3) = p_rect (player g1)"
    by (simp add: enemy_shooting_frame g2_def enemy_movement_frame)
  have es: "enemies_group ?g3 = enemies_group g2"
    by (simp add: enemy_shooting_frame)
  have g4: "player_bullets_hit_enemies ?g3 =
     ?g3\<lparr>enemies_group := es', player_bullets := bs',
       score := score ?g3 + 100 * int (length crashed),
       cues := cues ?g3 @ replicate (length crashed) ''enemy_destroyed''\<rparr>"
    using gc by (rule player_bullets_hit_enemies_eq)
  have tick: "playing_updates inp g = check_win (enemy_bullets_hit_player (player_bullets_hit_enemies ?g3))"
    by (simp add: playing_updates_def Let_def g1_def g2_def)
  have "player_bullets (playing_updates inp g) = bs'"
    unfolding tick g4 by (simp add: check_win_def enemy_bullets_hit_player_eq Let_def)
  also have "bs' = filter (\<lambda>b. \<not> list_ex (\<lambda>e. overlaps e b) (enemies_group ?g3)) (player_bullets ?g3)"
    using gc by (rule groupcollide_bullets)
  finally show "player_bullets (playing_updates inp g)
      = filter (\<lambda>b. \<not> list_ex (\<lambda>e. overlaps e b) (enemies_group g2))
          (filter (\<lambda>b. \<not> off_screen b) (map advance (player_bullets g)))"
    by (simp only: pb es)
  have "enemy_bullets (playing_updates inp g)
      = filter (\<lambda>b. \<not> colliderect (p_rect (player ?g3)) (b_rect b)) (enemy_bullets ?g3)"
    unfolding tick g4 by (simp add: check_win_def enemy_bullets_hit_player_eq Let_def)
  then show "enemy_bullets (playing_updates inp g)
      = filter (\<lambda>b. \<not> colliderect (p_rect (player g1)) (b_rect b))
          (filter (\<lambda>b. \<not> off_screen b) (map advance (enemy_bullets g))
           @ fired (shoot_draws inp) (enemies_group g2))"
    by (simp only: pr eb)
qed


lemma speed_y_Bullet_init:
  "speed_y (Bullet_init bx by (- 1) col) = - BULLET_SPEED"
  "speed_y (Bullet_init bx by 1 col) = BULLET_SPEED"
  by (simp_all add: Bullet_init_def Let_def)

lemma speed_y_advance [simp]: "speed_y (advance b) = speed_y b"
  by (simp add: advance_def)

lemma flying_init: "flying (init_game t0 t1)"
  by (simp add: flying_def init_game_def)

lemma flying_Player_shoot: "flying g \<Longrightarrow> flying (Player_shoot now g)"
  by (simp add: flying_def Player_shoot_def Let_def speed_y_Bullet_init)

lemma flying_playing_updates:
  assumes "flying g"
  shows "flying (playing_updates inp g)"
proof -
  have "list_all (\<lambda>b. speed_y b = BULLET_SPEED) (fired ds es)" for ds es
    by (simp add: fired_def list_all_iff speed_y_Bullet_init)
  with assms show ?thesis
    unfolding flying_def playing_updates_bullets
    by (auto simp: list_all_iff)
qed

lemma playing_updates_score:
  fixes inp g
  defines "g2 \<equiv> enemy_movement (now_move inp) (all_sprites_update (keystate inp) g)"
  shows "score (playing_updates inp g) + 100 * int (length (enemies_group (playing_updates inp g)))
      = score g + 100 * int (length (enemies_group g2))"
proof -
  let ?g3 = "enemy_shooting (shoot_draws inp) (enemies_group g2) g2"
  obtain crashed es' bs' where gc: "groupcollide (enemies_group ?g3) (player_bullets ?g3) = (crashed, es', bs')"
    by (cases "groupcollide (enemies_group ?g3) (player_bullets ?g3)")
  have g4: "player_bullets_hit_enemies ?g3 =
     ?g3\<lparr>enemies_group := es', player_bullets := bs',
       score := score ?g3 + 100 * int (length crashed),
       cues := cues ?g3 @ replicate (length crashed) ''enemy_destroyed''\<rparr>"
    using gc by (rule player_bullets_hit_enemies_eq)
  have tick: "playing_updates inp g = check_win (enemy_bullets_hit_player (player_bullets_hit_enemies ?g3))"
    by (simp add: playing_updates_def Let_def g2_def)
  have sc: "score (playing_updates inp g) = score g + 100 * int (length crashed)"
    unfolding tick g4
    by (simp add: check_win_def enemy_bullets_hit_player_eq Let_def enemy_shooting_frame g2_def
          enemy_movement_frame all_sprites_update_formation)
  have es: "enemies_group (playing_updates inp g) = es'"
    unfolding tick g4 by (simp add: check_win_def enemy_bullets_hit_player_eq Let_def)
  have "mset (enemies_group ?g3) = mset es' + mset (map fst crashed)"
    using gc by (rule groupcollide_partition_enemies)
  then have "size (mset (enemies_group ?g3)) = size (mset es' + mset (map fst crashed))"
    by (rule arg_cong)
  then have "length (enemies_group g2) = length es' + length crashed"
    by (simp add: enemy_shooting_frame)
  with sc es show ?thesis
    by simp
qed

lemma playing_updates_closed:
  fixes inp g
  defines "g2 \<equiv> enemy_movement (now_move inp) (all_sprites_update (keystate inp) g)"
  defines "shots \<equiv> fired (shoot_draws inp) (enemies_group g2)"
  defines "struck \<equiv> filter (\<lambda>b. colliderect (p_rect (player g2)) (b_rect b)) (enemy_bullets g2 @ shots)"
  assumes gc: "groupcollide (enemies_group g2) (player_bullets g2) = (crashed, es', bs')"
  shows "enemies_group (playing_updates inp g) = es'"
    and "player_bullets (playing_updates inp g) = bs'"
    and "score (playing_updates inp g) = score g + 100 * int (length crashed)"
    and "enemy_bullets (playing_updates inp g)
        = filter (\<lambda>b. \<not> colliderect (p_rect (player g2)) (b_rect b)) (enemy_bullets g2 @ shots)"
    and "lives (player (playing_updates inp g)) = lives (player g2) - int (length struck)"
    and "cues (playing_updates inp g)
        = cues g2 @ replicate (length shots) ''enemy_shoot''
            @ replicate (length crashed) ''enemy_destroyed''
            @ replicate (length struck) ''player_hit''"
proof -
  define g3 where "g3 = enemy_shooting (shoot_draws inp) (enemies_group g2) g2"
  define g4 where "g4 = player_bullets_hit_enemies g3"
  have g3: "g3 = g2\<lparr>enemy_bullets := enemy_bullets g2 @ shots,
        cues := cues g2 @ replicate (length shots) ''enemy_shoot''\<rparr>"
    by (simp add: g3_def enemy_shooting_eq shots_def)
  have "groupcollide (enemies_group g3) (player_bullets g3) = (crashed, es', bs')"
    using gc by (simp add: g3)
  then have "g4 = g3\<lparr>enemies_group := es', player_bullets := bs',
       score := score g3 + 100 * int (length crashed),
       cues := cues g3 @ replicate (length crashed) ''enemy_destroyed''\<rparr>"
    unfolding g4_def by (rule player_bullets_hit_enemies_eq)
  then have g4: "g4 = g2\<lparr>enemy_bullets := enemy_bullets g2 @ shots,
       enemies_group := es', player_bullets := bs',
       score := score g2 + 100 * int (length crashed),
       cues := cues g2 @ replicate (length shots) ''enemy_shoot''
                @ replicate (length crashed) ''enemy_destroyed''\<rparr>"
    by (simp add: g3)
  have h: "hitting g4 = struck"
    by (simp add: hitting_def struck_def g4)
  have tick: "playing_updates inp g = check_win (enemy_bullets_hit_player g4)"
    by (simp add: playing_updates_def Let_def g2_def g3_def g4_def)
  have sc: "score g2 = score g"
    by (simp add: g2_def enemy_movement_frame all_sprites_update_formation)
  have e5: "enemy_bullets_hit_player g4 =
      g4\<lparr>enemy_bullets := filter (\<lambda>b. \<not> colliderect (p_rect (player g4)) (b_rect b)) (enemy_bullets g4),
         player := (player g4)\<lparr>lives := lives (player g4) - int (length struck)\<rparr>,
         cues := cues g4 @ replicate (length struck) ''player_hit'',
         game_state := (if struck \<noteq> [] \<and> lives (player g4) - int (length struck) \<le> 0
                        then game_over else game_state g4),
         player_in_all_sprites := (if struck \<noteq> [] \<and> lives (player g4) - int (length struck) \<le> 0
                        then False else player_in_all_sprites g4)\<rparr>"
    by (simp add: enemy_bullets_hit_player_eq Let_def h)
  show "enemies_group (playing_updates inp g) = es'"
    unfolding tick e5 by (simp add: check_win_def g4)
  show "player_bullets (playing_updates inp g) = bs'"
    unfolding tick e5 by (simp add: check_win_def g4)
  show "score (playing_updates inp g) = score g + 100 * int (length crashed)"
    unfolding tick e5 by (simp add: check_win_def g4 sc)
  show "enemy_bullets (playing_updates inp g)
        = filter (\<lambda>b. \<not> colliderect (p_rect (player g2)) (b_rect b)) (enemy_bullets g2 @ shots)"
    unfolding tick e5 by (simp add: check_win_def g4)
  show "lives (player (playing_updates inp g)) = lives (player g2) - int (length struck)"
    unfolding tick e5 by (simp add: check_win_def g4)
  show "cues (playing_updates inp g)
        = cues g2 @ replicate (length shots) ''enemy_shoot''
            @ replicate (length crashed) ''enemy_destroyed''
            @ replicate (length struck) ''player_hit''"
    unfolding tick e5 by (simp add: check_win_def g4)
qed

lemma descent_game_over_lives:
  "game_state g = playing \<Longrightarrow> game_state (enemy_movement now g) = game_over
     \<Longrightarrow> lives (player (enemy_movement now g)) = 0"
  by (auto simp: enemy_movement_eq Let_def split: if_splits)


subsection \<open>Restart requests\<close>

lemma handle_events_restart:
  "game_state g \<noteq> playing \<Longrightarrow> (KEYDOWN K_r, t) \<in> set evs \<Longrightarrow> handle_events evs g = Inl True"
proof (induction evs arbitrary: g)
  case Nil
  then show ?case by simp
next
  case (Cons et evs)
  obtain e now where et: "et = (e, now)"
    by (cases et)
  show ?case
  proof (cases "e = KEYDOWN K_r")
    case True
    with Cons.prems(1) et show ?thesis
      by (cases "game_state g") simp_all
  next
    case False
    with Cons.prems(2) et have rest: "(KEYDOWN K_r, t) \<in> set evs"
      by auto
    have stop: "game_state (g\<lparr>running := False\<rparr>) \<noteq> playing"
      using Cons.prems(1) by simp
    have "handle_events ((e, now) # evs) g = handle_events evs g
      \<or> handle_events ((e, now) # evs) g = handle_events evs (g\<lparr>running := False\<rparr>)"
      using False Cons.prems(1) by (cases e; cases "game_state g") auto
    then show ?thesis
      using Cons.IH [OF Cons.prems(1) rest] Cons.IH [OF stop rest] et by auto
  qed
qed

lemma handle_events_terminal:
  "game_state g \<noteq> playing \<Longrightarrow> handle_events evs g = Inl True
     \<or> (\<exists>g'. handle_events evs g = Inr g' \<and> game_state g' = game_state g)"
proof (induction evs arbitrary: g)
  case Nil
  then show ?case by simp
next
  case (Cons et evs)
  obtain e now where et: "et = (e, now)"
    by (cases et)
  have stop: "game_state (g\<lparr>running := False\<rparr>) \<noteq> playing"
    using Cons.prems by simp
  have "handle_events ((e, now) # evs) g = Inl True
      \<or> handle_events ((e, now) # evs) g = handle_events evs g
      \<or> handle_events ((e, now) # evs) g = handle_events evs (g\<lparr>running := False\<rparr>)"
    using Cons.prems by (cases e; cases "game_state g") auto
  then show ?case
    using Cons.IH [OF Cons.prems] Cons.IH [OF stop] et by auto
qed

lemma scan_batch_eq:
  "scan_batch evs w =
     (if QUIT \<in> set evs \<or> KEYUP K_q \<in> set evs then None
      else Some (w \<and> KEYUP K_r \<notin> set evs))"
  by (induction evs w rule: scan_batch.induct) auto

lemma grid_positions:
  "map (\<lambda>e. (rect_x (e_rect e), rect_y (e_rect e))) create_enemies
     = concat (map (\<lambda>row. map (\<lambda>col. (110 + 60 * int col, 50 + 40 * int row)) [0..<10]) [0..<5])"
  by (simp add: create_enemies_def Let_def map_concat o_def Enemy_init_def get_rect_def
        consts_defs algebra_simps)


section \<open>The shoot cooldown of the player\<close>

text \<open>
  Claim C5. \<open>Player.shoot\<close> is rate-limited by the cooldown \<open>shoot_delay\<close>, which
  \<open>Player.__init__\<close> sets to 250 ms: a request adds a bullet to \<open>player_bullets\<close> if and only
  if the time since \<open>last_shot_time\<close> is strictly greater than the cooldown. A successful
  request appends exactly one bullet, born at the top centre of the ship and flying up, sets
  \<open>last_shot_time\<close> to the current time and plays the cue \<open>player_shoot\<close>. A request during
  the cooldown leaves the whole game state as it is. With the last shot at 0 and a cooldown of
  250, a request at 100 changes nothing and a following request at 260 adds a bullet.
\<close>

theorem player_shoot_rate_limited:
  "shoot_delay (Player_init t0) = 250
   \<and> (player_bullets (Player_shoot now g) \<noteq> player_bullets g
        \<longleftrightarrow> now - last_shot_time (player g) > shoot_delay (player g))
   \<and> (now - last_shot_time (player g) > shoot_delay (player g) \<longrightarrow>
        player_bullets (Player_shoot now g)
          = player_bullets g
            @ [Bullet_init (rect_centerx (p_rect (player g))) (rect_top (p_rect (player g)))
                 (- 1) YELLOW]
        \<and> last_shot_time (player (Player_shoot now g)) = now
        \<and> cues (Player_shoot now g) = cues g @ [''player_shoot''])
   \<and> (\<not> now - last_shot_time (player g) > shoot_delay (player g) \<longrightarrow>
        Player_shoot now g = g)
   \<and> (last_shot_time (player g) = 0 \<and> shoot_delay (player g) = 250 \<longrightarrow>
        Player_shoot 100 g = g
        \<and> length (player_bullets (Player_shoot 260 (Player_shoot 100 g)))
            = Suc (length (player_bullets g)))"
  by (simp add: Player_shoot_def Player_init_def Let_def)

theorem player_shoot_rate_limited_witness:
  "last_shot_time (player (init_game 0 0)) = 0
   \<and> shoot_delay (player (init_game 0 0)) = 250
   \<and> Player_shoot 100 (init_game 0 0) = init_game 0 0
   \<and> length (player_bullets (Player_shoot 260 (Player_shoot 100 (init_game 0 0)))) = 1
   \<and> last_shot_time (player (Player_shoot 260 (init_game 0 0))) = 260
   \<and> cues (Player_shoot 260 (init_game 0 0)) = [''player_shoot'']"
  using player_shoot_rate_limited [of 0 260 "init_game 0 0"]
  by (simp add: init_game_def Player_init_def)

subsection \<open>The first shot after the player is created\<close>

lemma Player_shoot_cooling:
  "cooling t0 g \<Longrightarrow> now - t0 \<le> 250 \<Longrightarrow> Player_shoot now g = g"
  by (simp add: cooling_def Player_shoot_def Let_def)

lemma handle_events_cooling:
  "cooling t0 g \<Longrightarrow> \<forall>et \<in> set evs. snd et - t0 \<le> 250 \<Longrightarrow> handle_events evs g = Inr g'
     \<Longrightarrow> cooling t0 g'"
proof (induction evs arbitrary: g g')
  case Nil
  then show ?case by simp
next
  case (Cons et evs)
  obtain e now where et: "et = (e, now)"
    by (cases et)
  from Cons.prems(2) et have now: "now - t0 \<le> 250"
    and rest: "\<forall>et \<in> set evs. snd et - t0 \<le> 250"
    by simp_all
  have IH: "cooling t0 h \<Longrightarrow> handle_events evs h = Inr g' \<Longrightarrow> cooling t0 g'" for h
    using Cons.IH rest by blast
  have shoot: "Player_shoot now g = g"
    using Cons.prems(1) now by (rule Player_shoot_cooling)
  have stop: "cooling t0 (g\<lparr>running := False\<rparr>)"
    using Cons.prems(1) by (simp add: cooling_def)
  have "handle_events ((e, now) # evs) g = Inl True
      \<or> handle_events ((e, now) # evs) g = handle_events evs g
      \<or> handle_events ((e, now) # evs) g = handle_events evs (g\<lparr>running := False\<rparr>)"
    using shoot by (cases e; cases "game_state g") simp_all
  with Cons.prems(3) et
  have "handle_events evs g = Inr g' \<or> handle_events evs (g\<lparr>running := False\<rparr>) = Inr g'"
    by auto
  then show ?case
    using IH Cons.prems(1) stop by blast
qed

text \<open>
  Claim C10. \<open>Player.__init__\<close> sets \<open>last_shot_time\<close> to the clock reading at creation, at
  the start of the game and again when \<open>main_game\<close> is re-entered after a restart. So the
  freshly created player is cooling down: a shoot request at most 250 ms after the creation
  changes nothing, the first request later than that adds the first bullet, and a round of the
  main loop whose shoot requests all come within the 250 ms leaves the player cooling down,
  with no bullet of theirs in the game.
\<close>

theorem first_shot_waits_for_cooldown:
  "cooling t0 (init_game t0 t1)
   \<and> (cooling t0 g \<longrightarrow>
        (now - t0 \<le> 250 \<longrightarrow> Player_shoot now g = g)
        \<and> (now - t0 > 250 \<longrightarrow> length (player_bullets (Player_shoot now g)) = 1))
   \<and> (cooling t0 g \<and> (\<forall>et \<in> set (events inp). snd et - t0 \<le> 250)
        \<and> main_iteration inp g = Continue g' \<longrightarrow> cooling t0 g')"
proof (intro conjI impI)
  show "cooling t0 (init_game t0 t1)"
    by (simp add: cooling_def init_game_def Player_init_def)
next
  assume "cooling t0 g" "now - t0 \<le> 250"
  then show "Player_shoot now g = g"
    by (simp add: cooling_def Player_shoot_def Let_def)
next
  assume "cooling t0 g" "250 < now - t0"
  then show "length (player_bullets (Player_shoot now g)) = 1"
    by (simp add: cooling_def Player_shoot_def Let_def)
next
  assume a: "cooling t0 g \<and> (\<forall>et \<in> set (events inp). snd et - t0 \<le> 250)
        \<and> main_iteration inp g = Continue g'"
  then obtain g1 where g1: "handle_events (events inp) g = Inr g1"
    and g': "g' = playing_updates inp g1"
    by (auto simp: main_iteration_def Let_def split: sum.splits if_splits option.splits
          screen_result.splits)
  from a g1 have "cooling t0 g1"
    using handle_events_cooling by blast
  with g' show "cooling t0 g'"
    by (simp add: cooling_def playing_updates_cooldown_frame playing_updates_no_player_bullets)
qed


theorem first_shot_waits_for_cooldown_witness:
  "cooling 0 (init_game 0 0)
   \<and> Player_shoot 250 (init_game 0 0) = init_game 0 0
   \<and> length (player_bullets (Player_shoot 251 (init_game 0 0))) = 1
   \<and> main_iteration \<lparr>events = [(KEYDOWN K_SPACE, 100)], keystate = (\<lambda>k. False), now_move = 100,
          shoot_draws = [], screen_batches = []\<rparr> (init_game 0 0)
       = Continue (playing_updates \<lparr>events = [(KEYDOWN K_SPACE, 100)], keystate = (\<lambda>k. False),
          now_move = 100, shoot_draws = [], screen_batches = []\<rparr> (init_game 0 0))
   \<and> cooling 0 (playing_updates \<lparr>events = [(KEYDOWN K_SPACE, 100)], keystate = (\<lambda>k. False),
          now_move = 100, shoot_draws = [], screen_batches = []\<rparr> (init_game 0 0))"
proof -
  let ?inp = "\<lparr>events = [(KEYDOWN K_SPACE, 100)], keystate = (\<lambda>k. False), now_move = 100,
          shoot_draws = [], screen_batches = []\<rparr>"
  let ?g = "init_game 0 0"
  have c: "cooling 0 ?g"
    by (simp add: cooling_def init_game_def Player_init_def)
  have ev: "\<forall>et \<in> set (events ?inp). snd et - 0 \<le> 250"
    by simp
  have s: "Player_shoot 100 ?g = ?g"
    by (simp add: Player_shoot_def init_game_def Player_init_def)
  have st: "game_state ?g = playing" "running ?g"
    by (simp_all add: init_game_def)
  have m: "main_iteration ?inp ?g = Continue (playing_updates ?inp ?g)"
    using s st by (simp add: main_iteration_def playing_updates_running)
  show ?thesis
    using first_shot_waits_for_cooldown [of 0 0 ?g 250 ?inp "playing_updates ?inp ?g"]
      first_shot_waits_for_cooldown [of 0 0 ?g 251 ?inp "playing_updates ?inp ?g"]
      c ev m
    by simp
qed

section \<open>The formation controller\<close>

text \<open>
  Claim C7. The formation steps only when at least \<open>ENEMY_MOVE_INTERVAL\<close>, 500 ms, of clock
  time have passed since the last step, whatever the number of ticks in between. A call of the
  controller before that leaves the whole game as it is, and so does any sequence of such
  calls; a whole tick before that moves no enemy (the enemies left are among the ones before)
  and keeps the time of the last step and the step direction. A call at or after the interval,
  with an enemy alive, records the time and moves every enemy horizontally by the current step
  delta. From the start of a game at time 0, ten calls at 1 ms, 2 ms, ... 10 ms change nothing,
  and the call at 500 ms makes exactly one step: the whole grid one pixel to the right, no
  descent.
\<close>

theorem formation_steps_on_interval:
  "ENEMY_MOVE_INTERVAL = 500
   \<and> (now - last_enemy_move_time g < ENEMY_MOVE_INTERVAL \<longrightarrow> enemy_movement now g = g)
   \<and> ((\<forall>t \<in> set ts. t - last_enemy_move_time g < ENEMY_MOVE_INTERVAL) \<longrightarrow>
         fold enemy_movement ts g = g)
   \<and> (now_move inp - last_enemy_move_time g < ENEMY_MOVE_INTERVAL \<longrightarrow>
         set (enemies_group (playing_updates inp g)) \<subseteq> set (enemies_group g)
         \<and> last_enemy_move_time (playing_updates inp g) = last_enemy_move_time g
         \<and> enemy_current_move_speed_x (playing_updates inp g) = enemy_current_move_speed_x g)
   \<and> (now - last_enemy_move_time g \<ge> ENEMY_MOVE_INTERVAL \<and> enemies_group g \<noteq> [] \<longrightarrow>
         last_enemy_move_time (enemy_movement now g) = now
         \<and> map (\<lambda>e. rect_x (e_rect e)) (enemies_group (enemy_movement now g))
             = map (\<lambda>e. rect_x (e_rect e) + enemy_current_move_speed_x g) (enemies_group g))
   \<and> fold enemy_movement [1, 2, 3, 4, 5, 6, 7, 8, 9, 10] (init_game t0 0) = init_game t0 0
   \<and> enemy_movement 500 (fold enemy_movement [1, 2, 3, 4, 5, 6, 7, 8, 9, 10] (init_game t0 0))
       = (init_game t0 0)\<lparr>enemies_group := map (shifted ENEMY_MOVE_SPEED_X 0) create_enemies,
                           last_enemy_move_time := 500\<rparr>"
proof (intro conjI impI)
  show "ENEMY_MOVE_INTERVAL = 500"
    by (simp add: ENEMY_MOVE_INTERVAL_def)
  show "enemy_movement now g = g" if "now - last_enemy_move_time g < ENEMY_MOVE_INTERVAL"
    using that by (simp add: enemy_movement_eq)
  show "fold enemy_movement ts g = g"
    if "\<forall>t \<in> set ts. t - last_enemy_move_time g < ENEMY_MOVE_INTERVAL"
    using that by (rule fold_enemy_movement_idle)
  have idle: "enemy_movement (now_move inp) (all_sprites_update (keystate inp) g)
      = all_sprites_update (keystate inp) g"
    if "now_move inp - last_enemy_move_time g < ENEMY_MOVE_INTERVAL"
    using that by (simp add: enemy_movement_eq all_sprites_update_formation)
  show "set (enemies_group (playing_updates inp g)) \<subseteq> set (enemies_group g)"
    if "now_move inp - last_enemy_move_time g < ENEMY_MOVE_INTERVAL"
    using playing_updates_formation(4) [of inp g] idle [OF that]
    by (simp add: all_sprites_update_formation)
  show "last_enemy_move_time (playing_updates inp g) = last_enemy_move_time g"
    if "now_move inp - last_enemy_move_time g < ENEMY_MOVE_INTERVAL"
    using idle [OF that] by (simp add: playing_updates_formation(3) all_sprites_update_formation)
  show "enemy_current_move_speed_x (playing_updates inp g) = enemy_current_move_speed_x g"
    if "now_move inp - last_enemy_move_time g < ENEMY_MOVE_INTERVAL"
    using idle [OF that] by (simp add: playing_updates_formation(1) all_sprites_update_formation)
  show "last_enemy_move_time (enemy_movement now g) = now"
    if "now - last_enemy_move_time g \<ge> ENEMY_MOVE_INTERVAL \<and> enemies_group g \<noteq> []"
    using that by (simp add: enemy_movement_eq Let_def)
  show "map (\<lambda>e. rect_x (e_rect e)) (enemies_group (enemy_movement now g))
      = map (\<lambda>e. rect_x (e_rect e) + enemy_current_move_speed_x g) (enemies_group g)"
    if "now - last_enemy_move_time g \<ge> ENEMY_MOVE_INTERVAL \<and> enemies_group g \<noteq> []"
    using that by (simp add: enemy_movement_eq Let_def shifted_def o_def)
  have f: "fold enemy_movement [1, 2, 3, 4, 5, 6, 7, 8, 9, 10] (init_game t0 0) = init_game t0 0"
    by (rule fold_enemy_movement_idle) (simp add: init_game_def ENEMY_MOVE_INTERVAL_def)
  then show "fold enemy_movement [1, 2, 3, 4, 5, 6, 7, 8, 9, 10] (init_game t0 0) = init_game t0 0" .
  have "enemy_movement 500 (init_game t0 0)
      = (init_game t0 0)\<lparr>enemies_group := map (shifted ENEMY_MOVE_SPEED_X 0) create_enemies,
                           last_enemy_move_time := 500\<rparr>"
    using create_enemies_in_bounds create_enemies_nonempty
    by (simp add: enemy_movement_eq Let_def init_game_def ENEMY_MOVE_INTERVAL_def)
  with f show "enemy_movement 500 (fold enemy_movement [1, 2, 3, 4, 5, 6, 7, 8, 9, 10] (init_game t0 0))
       = (init_game t0 0)\<lparr>enemies_group := map (shifted ENEMY_MOVE_SPEED_X 0) create_enemies,
                           last_enemy_move_time := 500\<rparr>"
    by (simp only:)
qed

theorem formation_steps_on_interval_witness:
  "3 - last_enemy_move_time ((init_game 0 0)\<lparr>enemies_group := [Enemy_init 110 50 0]\<rparr>)
        < ENEMY_MOVE_INTERVAL
   \<and> fold enemy_movement [1, 2, 3] ((init_game 0 0)\<lparr>enemies_group := [Enemy_init 110 50 0]\<rparr>)
       = (init_game 0 0)\<lparr>enemies_group := [Enemy_init 110 50 0]\<rparr>
   \<and> 500 - last_enemy_move_time ((init_game 0 0)\<lparr>enemies_group := [Enemy_init 110 50 0]\<rparr>)
       \<ge> ENEMY_MOVE_INTERVAL
   \<and> last_enemy_move_time (enemy_movement 500 ((init_game 0 0)\<lparr>enemies_group := [Enemy_init 110 50 0]\<rparr>))
       = 500
   \<and> map (\<lambda>e. rect_x (e_rect e))
         (enemies_group (enemy_movement 500 ((init_game 0 0)\<lparr>enemies_group := [Enemy_init 110 50 0]\<rparr>)))
       = [111]"
  using formation_steps_on_interval [of 500 "(init_game 0 0)\<lparr>enemies_group := [Enemy_init 110 50 0]\<rparr>"
      "[1, 2, 3]"
      "\<lparr>events = [], keystate = (\<lambda>k. False), now_move = 3, shoot_draws = [], screen_batches = []\<rparr>" 0]
  by (simp add: init_game_def Enemy_init_def get_rect_def ENEMY_MOVE_INTERVAL_def ENEMY_MOVE_SPEED_X_def)

text \<open>
  Claim C4. Wall bounce and descent happen in one step. When the formation is due to step and
  the horizontal move takes some enemy past the right or the left boundary, however many
  enemies breach at once, that step negates the step direction once, moves every enemy by the
  old step delta and drops every enemy by \<open>ENEMY_MOVE_DOWN_STEP\<close> once, and leaves no descent
  pending. If the formation was inside the boundaries before the step, the next step in the
  new direction is not a bounce. In the tick of the bounce, the enemy shooting and the
  collisions come after it: at the end of the tick the direction is the negated one and the
  enemies left are among the dropped ones.
\<close>

theorem wall_bounce_and_descent_atomic:
  assumes "now - last_enemy_move_time g \<ge> ENEMY_MOVE_INTERVAL"
    and "breaches (enemy_current_move_speed_x g) (enemies_group g)"
  shows "enemy_current_move_speed_x (enemy_movement now g) = - enemy_current_move_speed_x g
    \<and> enemies_group (enemy_movement now g)
        = map (shifted (enemy_current_move_speed_x g) ENEMY_MOVE_DOWN_STEP) (enemies_group g)
    \<and> \<not> move_enemies_down (enemy_movement now g)
    \<and> (\<not> breaches 0 (enemies_group g) \<longrightarrow>
          \<not> breaches (enemy_current_move_speed_x (enemy_movement now g))
               (enemies_group (enemy_movement now g)))
    \<and> (now_move inp = now \<longrightarrow>
          enemy_current_move_speed_x (playing_updates inp g) = - enemy_current_move_speed_x g
          \<and> \<not> move_enemies_down (playing_updates inp g)
          \<and> set (enemies_group (playing_updates inp g))
              \<subseteq> set (map (shifted (enemy_current_move_speed_x g) ENEMY_MOVE_DOWN_STEP)
                       (enemies_group g)))"
proof -
  from assms(2) have ne: "enemies_group g \<noteq> []"
    by auto
  have step: "enemy_current_move_speed_x (enemy_movement t h) = - enemy_current_move_speed_x h
      \<and> enemies_group (enemy_movement t h)
          = map (shifted (enemy_current_move_speed_x h) ENEMY_MOVE_DOWN_STEP) (enemies_group h)
      \<and> \<not> move_enemies_down (enemy_movement t h)"
    if "t - last_enemy_move_time h \<ge> ENEMY_MOVE_INTERVAL"
      and "breaches (enemy_current_move_speed_x h) (enemies_group h)" for t h
  proof -
    from that(2) have "enemies_group h \<noteq> []" by auto
    with that show ?thesis
      by (simp add: enemy_movement_eq Let_def)
  qed
  note here = step [OF assms]
  have again: "\<not> breaches (enemy_current_move_speed_x (enemy_movement now g))
      (enemies_group (enemy_movement now g))" if "\<not> breaches 0 (enemies_group g)"
    using that here by (simp add: breaches_shifted)
  have tick: "enemy_current_move_speed_x (playing_updates inp g) = - enemy_current_move_speed_x g
      \<and> \<not> move_enemies_down (playing_updates inp g)
      \<and> set (enemies_group (playing_updates inp g))
          \<subseteq> set (map (shifted (enemy_current_move_speed_x g) ENEMY_MOVE_DOWN_STEP)
                   (enemies_group g))" if "now_move inp = now"
  proof -
    let ?g1 = "all_sprites_update (keystate inp) g"
    have "now_move inp - last_enemy_move_time ?g1 \<ge> ENEMY_MOVE_INTERVAL"
      and "breaches (enemy_current_move_speed_x ?g1) (enemies_group ?g1)"
      using assms that by (simp_all add: all_sprites_update_formation)
    from step [OF this] show ?thesis
      using playing_updates_formation(4) [of inp g]
      by (simp add: playing_updates_formation(1,2) all_sprites_update_formation)
  qed
  from here again tick show ?thesis
    by blast
qed


theorem wall_bounce_and_descent_atomic_witness:
  "500 - last_enemy_move_time ((init_game 0 0)\<lparr>enemies_group := [Enemy_init 760 50 0, Enemy_init 760 90 1]\<rparr>)
     \<ge> ENEMY_MOVE_INTERVAL
   \<and> breaches 1 [Enemy_init 760 50 0, Enemy_init 760 90 1]
   \<and> \<not> breaches 0 [Enemy_init 760 50 0, Enemy_init 760 90 1]
   \<and> enemy_current_move_speed_x
        (enemy_movement 500 ((init_game 0 0)\<lparr>enemies_group := [Enemy_init 760 50 0, Enemy_init 760 90 1]\<rparr>))
       = - 1
   \<and> enemies_group
        (enemy_movement 500 ((init_game 0 0)\<lparr>enemies_group := [Enemy_init 760 50 0, Enemy_init 760 90 1]\<rparr>))
       = [Enemy_init 761 60 0, Enemy_init 761 100 1]
   \<and> \<not> breaches (- 1) [Enemy_init 761 60 0, Enemy_init 761 100 1]"
  using wall_bounce_and_descent_atomic [of 500
      "(init_game 0 0)\<lparr>enemies_group := [Enemy_init 760 50 0, Enemy_init 760 90 1]\<rparr>"
      "\<lparr>events = [], keystate = (\<lambda>k. False), now_move = 500, shoot_draws = [],
        screen_batches = []\<rparr>"]
  by (simp add: init_game_def breaches_def shifted_def Enemy_init_def rect_defs consts_defs)

text \<open>
  Claim C8. When the formation steps and descends (because of a wall bounce or a pending
  descent) and the drop takes the bottom edge of some enemy to or past the top edge of the
  player, the controller sets the phase to \<open>game_over\<close> in that step, whatever the lives of
  the player were, and sets the lives to 0; the phase is still \<open>game_over\<close> at the end of
  that tick.
\<close>

theorem descent_reaching_player_is_game_over:
  assumes "now - last_enemy_move_time g \<ge> ENEMY_MOVE_INTERVAL"
    and "breaches (enemy_current_move_speed_x g) (enemies_group g) \<or> move_enemies_down g"
    and "reaches (player g) (enemies_group g)"
  shows "game_state (enemy_movement now g) = game_over
    \<and> lives (player (enemy_movement now g)) = 0
    \<and> (now_move inp = now \<longrightarrow> game_state (playing_updates inp g) = game_over)"
proof -
  have step: "game_state (enemy_movement t h) = game_over \<and> lives (player (enemy_movement t h)) = 0"
    if "t - last_enemy_move_time h \<ge> ENEMY_MOVE_INTERVAL"
      and "breaches (enemy_current_move_speed_x h) (enemies_group h) \<or> move_enemies_down h"
      and "reaches (player h) (enemies_group h)" for t h
  proof -
    from that(3) have "enemies_group h \<noteq> []" by auto
    with that show ?thesis
      by (simp add: enemy_movement_eq Let_def)
  qed
  have "game_state (playing_updates inp g) = game_over" if "now_move inp = now"
  proof -
    let ?g1 = "all_sprites_update (keystate inp) g"
    have "game_state (enemy_movement (now_move inp) ?g1) = game_over"
      using step [of "now_move inp" ?g1] assms that
      by (simp add: all_sprites_update_formation)
    then show ?thesis
      by (rule playing_updates_formation(5))
  qed
  with step [OF assms] show ?thesis
    by blast
qed


theorem descent_reaching_player_is_game_over_witness:
  "500 - last_enemy_move_time ((init_game 0 0)\<lparr>enemies_group := [Enemy_init 760 530 4]\<rparr>)
      \<ge> ENEMY_MOVE_INTERVAL
   \<and> breaches (enemy_current_move_speed_x (init_game 0 0)) [Enemy_init 760 530 4]
   \<and> reaches (player (init_game 0 0)) [Enemy_init 760 530 4]
   \<and> lives (player (init_game 0 0)) = 3
   \<and> game_state (init_game 0 0) = playing
   \<and> game_state (enemy_movement 500 ((init_game 0 0)\<lparr>enemies_group := [Enemy_init 760 530 4]\<rparr>))
       = game_over
   \<and> lives (player (enemy_movement 500 ((init_game 0 0)\<lparr>enemies_group := [Enemy_init 760 530 4]\<rparr>)))
       = 0"
  using descent_reaching_player_is_game_over [of 500
      "(init_game 0 0)\<lparr>enemies_group := [Enemy_init 760 530 4]\<rparr>"
      "\<lparr>events = [], keystate = (\<lambda>k. False), now_move = 500, shoot_draws = [], screen_batches = []\<rparr>"]
  by (simp add: init_game_def Player_init_def Enemy_init_def breaches_def reaches_def rect_defs
        consts_defs)

section \<open>After a descent that ends the game\<close>

lemma late_descent_trace:
  "all_sprites_update (keystate late_descent_inputs) late_descent_game
     = late_descent_game\<lparr>player_bullets := [bullet_at 773 539 (- 6) YELLOW]\<rparr>"
  "enemy_movement (now_move late_descent_inputs)
       (late_descent_game\<lparr>player_bullets := [bullet_at 773 539 (- 6) YELLOW]\<rparr>)
     = late_descent_game
         \<lparr>player_bullets := [bullet_at 773 539 (- 6) YELLOW],
          enemies_group := [Enemy_init 761 540 4],
          enemy_current_move_speed_x := - 1,
          last_enemy_move_time := 500,
          player := (player late_descent_game)\<lparr>lives := 0\<rparr>,
          game_state := game_over\<rparr>"
  by (simp_all add: late_descent_game_def late_descent_inputs_def bullet_at_def tick_eval)

text \<open>
  Claim C3, as stated, fails. In the tick in which the descent of the formation sets the phase
  to \<open>game_over\<close>, the enemy shooting and both collision passes still run. In the scenario
  \<open>late_descent_game\<close> the last enemy drops onto the player's row, the phase becomes
  \<open>game_over\<close>, and in the same tick the bullet the player has just fired destroys that
  enemy: the group is empty afterwards, the score is 100 higher and the cue
  \<open>enemy_destroyed\<close> is played.
\<close>

theorem enemy_destroyed_after_descent_game_over:
  "game_state late_descent_game = playing
   \<and> game_state (enemy_movement (now_move late_descent_inputs)
         (all_sprites_update (keystate late_descent_inputs) late_descent_game)) = game_over
   \<and> length (enemies_group late_descent_game) = 1
   \<and> enemies_group (playing_updates late_descent_inputs late_descent_game) = []
   \<and> score (playing_updates late_descent_inputs late_descent_game)
       = score late_descent_game + 100
   \<and> cues (playing_updates late_descent_inputs late_descent_game) = [''enemy_destroyed'']"
proof -
  let ?g2 = "late_descent_game
         \<lparr>player_bullets := [bullet_at 773 539 (- 6) YELLOW],
          enemies_group := [Enemy_init 761 540 4],
          enemy_current_move_speed_x := - 1,
          last_enemy_move_time := 500,
          player := (player late_descent_game)\<lparr>lives := 0\<rparr>,
          game_state := game_over\<rparr>"
  have shoot: "enemy_shooting (shoot_draws late_descent_inputs) (enemies_group ?g2) ?g2 = ?g2"
    by (simp add: late_descent_inputs_def)
  have hit: "player_bullets_hit_enemies ?g2
      = ?g2\<lparr>enemies_group := [], player_bullets := [], score := score late_descent_game + 100,
            cues := [''enemy_destroyed'']\<rparr>"
    by (simp add: player_bullets_hit_enemies_def spritecollide_def colliderect_def bullet_at_def
          Enemy_init_def get_rect_def late_descent_game_def init_game_def consts_defs)
  have rest: "check_win (enemy_bullets_hit_player
        (?g2\<lparr>enemies_group := [], player_bullets := [], score := score late_descent_game + 100,
            cues := [''enemy_destroyed'']\<rparr>))
      = ?g2\<lparr>enemies_group := [], player_bullets := [], score := score late_descent_game + 100,
            cues := [''enemy_destroyed'']\<rparr>"
    by (simp add: check_win_def enemy_bullets_hit_player_def spritecollide_def
          late_descent_game_def init_game_def)
  have tick: "playing_updates late_descent_inputs late_descent_game
      = ?g2\<lparr>enemies_group := [], player_bullets := [], score := score late_descent_game + 100,
            cues := [''enemy_destroyed'']\<rparr>"
    unfolding playing_updates_def Let_def late_descent_trace shoot hit rest ..
  show ?thesis
    unfolding tick late_descent_trace
    by (simp add: late_descent_game_def init_game_def)
qed

text \<open>
  Claim C3, amended. In a tick that starts in the phase \<open>playing\<close> and in which the descent
  of the formation sets the phase to \<open>game_over\<close>, the enemy shooting and both collision passes
  still run, on the state the formation controller leaves. The enemies and player bullets at
  the end of the tick are the ones \<open>groupcollide\<close> leaves: every enemy with a collision is
  destroyed, adds 100 to the score and plays \<open>enemy_destroyed\<close>, and the first enemy in group
  order that a player bullet overlaps is among them, so that the group shrinks and the score
  grows. The enemies drawn to shoot fire and play \<open>enemy_shoot\<close>. Every enemy bullet, old or
  fired in this tick, that overlaps the player is removed, plays \<open>player_hit\<close> and takes one
  from the lives, which the descent has set to 0. Only the win check is without effect: the
  phase is \<open>game_over\<close> at the end of the tick. No later round of the main loop runs the
  updates of a tick: the next round leaves \<open>main_game\<close> or waits in the game-over screen.
\<close>

theorem descent_game_over_ends_play:
  fixes inp g
  defines "g2 \<equiv> enemy_movement (now_move inp) (all_sprites_update (keystate inp) g)"
  defines "shots \<equiv> fired (shoot_draws inp) (enemies_group g2)"
  defines "struck \<equiv>
    filter (\<lambda>b. colliderect (p_rect (player g2)) (b_rect b)) (enemy_bullets g2 @ shots)"
  assumes "game_state g = playing"
    and "game_state g2 = game_over"
    and "groupcollide (enemies_group g2) (player_bullets g2) = (crashed, es', bs')"
  shows "game_state (playing_updates inp g) = game_over
    \<and> main_iteration inp' (playing_updates inp g) \<noteq> Continue g'
    \<and> enemies_group (playing_updates inp g) = es'
    \<and> player_bullets (playing_updates inp g) = bs'
    \<and> score (playing_updates inp g) = score g + 100 * int (length crashed)
    \<and> mset (enemies_group g2) = mset es' + mset (map fst crashed)
    \<and> bs' = filter (\<lambda>b. \<not> list_ex (\<lambda>e. overlaps e b) (enemies_group g2)) (player_bullets g2)
    \<and> (\<forall>pre e post b.
          enemies_group g2 = pre @ e # post \<and> b \<in> set (player_bullets g2) \<and> overlaps e b
          \<and> (\<forall>e' \<in> set pre. \<not> overlaps e' b)
          \<longrightarrow> (\<exists>hits. (e, hits) \<in> set crashed \<and> b \<in> set hits)
              \<and> length (enemies_group (playing_updates inp g)) < length (enemies_group g2)
              \<and> score g + 100 \<le> score (playing_updates inp g))
    \<and> player_bullets g2 = filter (\<lambda>b. \<not> off_screen b) (map advance (player_bullets g))
    \<and> enemy_bullets (playing_updates inp g)
        = filter (\<lambda>b. \<not> colliderect (p_rect (player g2)) (b_rect b)) (enemy_bullets g2 @ shots)
    \<and> enemy_bullets g2 = filter (\<lambda>b. \<not> off_screen b) (map advance (enemy_bullets g))
    \<and> lives (player (playing_updates inp g)) = - int (length struck)
    \<and> cues (playing_updates inp g)
        = cues g @ replicate (length shots) ''enemy_shoot''
            @ replicate (length crashed) ''enemy_destroyed''
            @ replicate (length struck) ''player_hit''"
proof -
  note gc = assms(6)
  note closed = playing_updates_closed [OF gc [unfolded g2_def], folded g2_def shots_def struck_def]
  have over: "game_state (playing_updates inp g) = game_over"
    using assms(5) unfolding g2_def by (rule playing_updates_formation(5))
  then have stop: "main_iteration inp' (playing_updates inp g) \<noteq> Continue g'"
    by (simp add: main_iteration_terminal)
  have part: "mset (enemies_group g2) = mset es' + mset (map fst crashed)"
    using gc by (rule groupcollide_partition_enemies)
  have bs': "bs' = filter (\<lambda>b. \<not> list_ex (\<lambda>e. overlaps e b) (enemies_group g2)) (player_bullets g2)"
    using gc by (rule groupcollide_bullets)
  have len: "length (enemies_group g2) = length es' + length crashed"
    using arg_cong [OF part, of size] by simp
  have first: "\<forall>pre e post b.
          enemies_group g2 = pre @ e # post \<and> b \<in> set (player_bullets g2) \<and> overlaps e b
          \<and> (\<forall>e' \<in> set pre. \<not> overlaps e' b)
          \<longrightarrow> (\<exists>hits. (e, hits) \<in> set crashed \<and> b \<in> set hits)
              \<and> length (enemies_group (playing_updates inp g)) < length (enemies_group g2)
              \<and> score g + 100 \<le> score (playing_updates inp g)"
  proof (intro allI impI)
    fix pre e post b
    assume a: "enemies_group g2 = pre @ e # post \<and> b \<in> set (player_bullets g2) \<and> overlaps e b
          \<and> (\<forall>e' \<in> set pre. \<not> overlaps e' b)"
    with gc have "groupcollide (pre @ e # post) (player_bullets g2) = (crashed, es', bs')"
      by simp
    from groupcollide_first_overlap [OF this] a
    obtain hits where h: "(e, hits) \<in> set crashed" "b \<in> set hits"
      by blast
    then have "crashed \<noteq> []"
      by auto
    then have "1 \<le> length crashed"
      by (cases crashed) simp_all
    with h len show "(\<exists>hits. (e, hits) \<in> set crashed \<and> b \<in> set hits)
              \<and> length (enemies_group (playing_updates inp g)) < length (enemies_group g2)
              \<and> score g + 100 \<le> score (playing_updates inp g)"
      by (auto simp: closed(1,3))
  qed
  have pb: "player_bullets g2 = filter (\<lambda>b. \<not> off_screen b) (map advance (player_bullets g))"
    and eb: "enemy_bullets g2 = filter (\<lambda>b. \<not> off_screen b) (map advance (enemy_bullets g))"
    and cs: "cues g2 = cues g"
    by (simp_all add: g2_def enemy_movement_eq Let_def all_sprites_update_def update_group_eq)
  have "lives (player g2) = 0"
    using assms(4,5) unfolding g2_def
    by (intro descent_game_over_lives) (simp_all add: all_sprites_update_formation)
  then have lv: "lives (player (playing_updates inp g)) = - int (length struck)"
    using playing_updates_closed(5) [OF gc [unfolded g2_def]]
    unfolding struck_def shots_def g2_def by simp
  have cu: "cues (playing_updates inp g)
        = cues g @ replicate (length shots) ''enemy_shoot''
            @ replicate (length crashed) ''enemy_destroyed''
            @ replicate (length struck) ''player_hit''"
    using playing_updates_closed(6) [OF gc [unfolded g2_def]] cs
    unfolding struck_def shots_def g2_def by simp
  show ?thesis
    by (intro conjI over stop closed(1,2,3,4) part bs' first pb eb lv cu)
qed

theorem descent_game_over_ends_play_witness:
  "game_state late_descent_game = playing
   \<and> game_state (enemy_movement (now_move late_descent_inputs)
         (all_sprites_update (keystate late_descent_inputs) late_descent_game)) = game_over
   \<and> groupcollide
        (enemies_group (enemy_movement (now_move late_descent_inputs)
           (all_sprites_update (keystate late_descent_inputs) late_descent_game)))
        (player_bullets (enemy_movement (now_move late_descent_inputs)
           (all_sprites_update (keystate late_descent_inputs) late_descent_game)))
       = ([(Enemy_init 761 540 4, [bullet_at 773 539 (- 6) YELLOW])], [], [])
   \<and> game_state (playing_updates late_descent_inputs late_descent_game) = game_over
   \<and> enemies_group (playing_updates late_descent_inputs late_descent_game) = []
   \<and> player_bullets (playing_updates late_descent_inputs late_descent_game) = []
   \<and> score (playing_updates late_descent_inputs late_descent_game) = 100
   \<and> lives (player (playing_updates late_descent_inputs late_descent_game)) = 0
   \<and> main_iteration late_descent_inputs (playing_updates late_descent_inputs late_descent_game)
       = Waiting"
proof -
  have a: "game_state late_descent_game = playing"
    by (simp add: late_descent_game_def init_game_def)
  have b: "game_state (enemy_movement (now_move late_descent_inputs)
         (all_sprites_update (keystate late_descent_inputs) late_descent_game)) = game_over"
    unfolding late_descent_trace by simp
  have gc: "groupcollide
        (enemies_group (enemy_movement (now_move late_descent_inputs)
           (all_sprites_update (keystate late_descent_inputs) late_descent_game)))
        (player_bullets (enemy_movement (now_move late_descent_inputs)
           (all_sprites_update (keystate late_descent_inputs) late_descent_game)))
       = ([(Enemy_init 761 540 4, [bullet_at 773 539 (- 6) YELLOW])], [], [])"
    unfolding late_descent_trace
    by (simp add: spritecollide_def colliderect_def bullet_at_def Enemy_init_def get_rect_def
          consts_defs)
  have eb: "enemy_bullets late_descent_game = []" "score late_descent_game = 0"
    by (simp_all add: late_descent_game_def init_game_def)
  note t = descent_game_over_ends_play [OF a b gc]
  have c: "game_state (playing_updates late_descent_inputs late_descent_game) = game_over"
    using t by simp
  have w: "main_iteration late_descent_inputs (playing_updates late_descent_inputs late_descent_game)
       = Waiting"
    using c by (simp add: main_iteration_def late_descent_inputs_def game_over_screen_def)
  have l: "lives (player (playing_updates late_descent_inputs late_descent_game)) = 0"
    using t by (simp add: eb fired_def late_descent_inputs_def)
  from a b gc c w l t show ?thesis
    by (simp add: eb)
qed


section \<open>Collisions\<close>

text \<open>
  Claim C2. In the pass of the player bullets against the live enemies, \<open>groupcollide\<close>
  takes the enemies in the order of their group and, for each, kills every bullet still in
  the group that overlaps it; the enemy is killed when there is such a bullet. So every bullet
  that overlaps some enemy is destroyed and no other bullet is; every destroyed enemy had a
  bullet overlapping it; the bullets are split between the survivors and the collision lists
  of the destroyed enemies, so that a bullet is consumed by at most one enemy and the enemies
  destroyed are never more than the bullets consumed; the first enemy in group order that a
  bullet overlaps is the one destroyed with it; and afterwards no surviving bullet overlaps a
  surviving enemy. A single bullet that overlaps two enemies destroys the first only.
\<close>

theorem one_bullet_kills_at_most_one_enemy:
  assumes "groupcollide (enemies_group g) (player_bullets g) = (crashed, es', bs')"
  shows "enemies_group (player_bullets_hit_enemies g) = es'
    \<and> player_bullets (player_bullets_hit_enemies g) = bs'
    \<and> bs' = filter (\<lambda>b. \<not> list_ex (\<lambda>e. overlaps e b) (enemies_group g)) (player_bullets g)
    \<and> mset (player_bullets g) = mset bs' + mset (concat (map snd crashed))
    \<and> mset (enemies_group g) = mset es' + mset (map fst crashed)
    \<and> (\<forall>(e, hits) \<in> set crashed. hits \<noteq> [] \<and> (\<forall>b \<in> set hits. overlaps e b))
    \<and> (\<forall>pre e post b.
          enemies_group g = pre @ e # post \<and> b \<in> set (player_bullets g) \<and> overlaps e b
          \<and> (\<forall>e' \<in> set pre. \<not> overlaps e' b)
          \<longrightarrow> (\<exists>hits. (e, hits) \<in> set crashed \<and> b \<in> set hits))
    \<and> length crashed + length bs' \<le> length (player_bullets g)
    \<and> (\<forall>e \<in> set es'. \<forall>b \<in> set bs'. \<not> overlaps e b)"
proof (intro conjI)
  note gc = assms
  show "enemies_group (player_bullets_hit_enemies g) = es'"
    and "player_bullets (player_bullets_hit_enemies g) = bs'"
    by (simp_all add: player_bullets_hit_enemies_eq [OF gc])
  show bs': "bs' = filter (\<lambda>b. \<not> list_ex (\<lambda>e. overlaps e b) (enemies_group g)) (player_bullets g)"
    using gc by (rule groupcollide_bullets)
  show part: "mset (player_bullets g) = mset bs' + mset (concat (map snd crashed))"
    using gc by (rule groupcollide_partition_bullets)
  show "mset (enemies_group g) = mset es' + mset (map fst crashed)"
    using gc by (rule groupcollide_partition_enemies)
  show hits: "\<forall>(e, hits) \<in> set crashed. hits \<noteq> [] \<and> (\<forall>b \<in> set hits. overlaps e b)"
    using groupcollide_crashed [OF gc] by blast
  show "\<forall>pre e post b.
          enemies_group g = pre @ e # post \<and> b \<in> set (player_bullets g) \<and> overlaps e b
          \<and> (\<forall>e' \<in> set pre. \<not> overlaps e' b)
          \<longrightarrow> (\<exists>hits. (e, hits) \<in> set crashed \<and> b \<in> set hits)"
  proof (intro allI impI)
    fix pre e post b
    assume a: "enemies_group g = pre @ e # post \<and> b \<in> set (player_bullets g) \<and> overlaps e b
          \<and> (\<forall>e' \<in> set pre. \<not> overlaps e' b)"
    with gc have "groupcollide (pre @ e # post) (player_bullets g) = (crashed, es', bs')"
      by simp
    from groupcollide_first_overlap [OF this] a
    show "\<exists>hits. (e, hits) \<in> set crashed \<and> b \<in> set hits"
      by blast
  qed
  have "length (player_bullets g) = length bs' + length (concat (map snd crashed))"
    using part by (metis size_mset size_union)
  moreover have "length crashed \<le> length (concat (map snd crashed))"
    using hits by (intro length_le_concat) auto
  ultimately show "length crashed + length bs' \<le> length (player_bullets g)"
    by simp
  have "set es' \<subseteq> set (enemies_group g)"
    using gc by (rule groupcollide_survivors)
  then show "\<forall>e \<in> set es'. \<forall>b \<in> set bs'. \<not> overlaps e b"
    unfolding bs' by (auto simp: list_ex_iff)
qed

theorem one_bullet_kills_at_most_one_enemy_witness:
  "groupcollide [Enemy_init 100 100 0, Enemy_init 130 100 0] [bullet_at 133 105 (- 6) YELLOW]
     = ([(Enemy_init 100 100 0, [bullet_at 133 105 (- 6) YELLOW])], [Enemy_init 130 100 0], [])
   \<and> overlaps (Enemy_init 100 100 0) (bullet_at 133 105 (- 6) YELLOW)
   \<and> overlaps (Enemy_init 130 100 0) (bullet_at 133 105 (- 6) YELLOW)
   \<and> enemies_group (player_bullets_hit_enemies
        ((init_game 0 0)\<lparr>enemies_group := [Enemy_init 100 100 0, Enemy_init 130 100 0],
                         player_bullets := [bullet_at 133 105 (- 6) YELLOW]\<rparr>))
       = [Enemy_init 130 100 0]
   \<and> player_bullets (player_bullets_hit_enemies
        ((init_game 0 0)\<lparr>enemies_group := [Enemy_init 100 100 0, Enemy_init 130 100 0],
                         player_bullets := [bullet_at 133 105 (- 6) YELLOW]\<rparr>))
       = []"
proof -
  have gc: "groupcollide [Enemy_init 100 100 0, Enemy_init 130 100 0] [bullet_at 133 105 (- 6) YELLOW]
     = ([(Enemy_init 100 100 0, [bullet_at 133 105 (- 6) YELLOW])], [Enemy_init 130 100 0], [])"
    by (simp add: spritecollide_def colliderect_def Enemy_init_def bullet_at_def get_rect_def
          consts_defs)
  have ov: "overlaps (Enemy_init 100 100 0) (bullet_at 133 105 (- 6) YELLOW)"
    "overlaps (Enemy_init 130 100 0) (bullet_at 133 105 (- 6) YELLOW)"
    by (simp_all add: overlaps_def colliderect_def Enemy_init_def bullet_at_def get_rect_def
          consts_defs)
  show ?thesis
    using one_bullet_kills_at_most_one_enemy
      [of "(init_game 0 0)\<lparr>enemies_group := [Enemy_init 100 100 0, Enemy_init 130 100 0],
                         player_bullets := [bullet_at 133 105 (- 6) YELLOW]\<rparr>"
          "[(Enemy_init 100 100 0, [bullet_at 133 105 (- 6) YELLOW])]" "[Enemy_init 130 100 0]" "[]"]
      gc ov
    by simp
qed


lemma double_hit_trace:
  "all_sprites_update (keystate double_hit_inputs) double_hit_game
     = double_hit_game\<lparr>enemy_bullets := [bullet_at 388 550 6 CYAN, bullet_at 388 548 6 CYAN]\<rparr>"
  "enemy_movement (now_move double_hit_inputs)
       (double_hit_game\<lparr>enemy_bullets := [bullet_at 388 550 6 CYAN, bullet_at 388 548 6 CYAN]\<rparr>)
     = double_hit_game\<lparr>enemy_bullets := [bullet_at 388 550 6 CYAN, bullet_at 388 548 6 CYAN]\<rparr>"
  by (simp_all add: double_hit_game_def double_hit_inputs_def bullet_at_def tick_eval)

text \<open>
  Claim C1, as stated, fails: the lives counter is not clamped. In the scenario
  \<open>double_hit_game\<close> the player has one life and two enemy bullets reach the ship in the same
  tick; each decrements the counter, and the tick ends in the phase \<open>game_over\<close> with
  \<open>-1\<close> lives.
\<close>

theorem two_hits_make_lives_negative:
  "game_state double_hit_game = playing
   \<and> lives (player double_hit_game) = 1
   \<and> length (hitting (double_hit_game
          \<lparr>enemy_bullets := [bullet_at 388 550 6 CYAN, bullet_at 388 548 6 CYAN]\<rparr>)) = 2
   \<and> game_state (playing_updates double_hit_inputs double_hit_game) = game_over
   \<and> lives (player (playing_updates double_hit_inputs double_hit_game)) = - 1"
proof -
  let ?g2 = "double_hit_game\<lparr>enemy_bullets := [bullet_at 388 550 6 CYAN, bullet_at 388 548 6 CYAN]\<rparr>"
  have shoot: "enemy_shooting (shoot_draws double_hit_inputs) (enemies_group ?g2) ?g2 = ?g2"
    by (simp add: double_hit_inputs_def double_hit_game_def)
  have hit: "player_bullets_hit_enemies ?g2 = ?g2"
    by (simp add: player_bullets_hit_enemies_def groupcollide_no_bullets double_hit_game_def
          init_game_def)
  have h: "hitting ?g2 = [bullet_at 388 550 6 CYAN, bullet_at 388 548 6 CYAN]"
    by (simp add: hitting_def colliderect_def bullet_at_def double_hit_game_def Player_init_def
          get_rect_def consts_defs)
  have shot: "enemy_bullets_hit_player ?g2
      = ?g2\<lparr>enemy_bullets := [], player := (player double_hit_game)\<lparr>lives := - 1\<rparr>,
            cues := [''player_hit'', ''player_hit''], game_state := game_over,
            player_in_all_sprites := False\<rparr>"
    unfolding enemy_bullets_hit_player_eq Let_def h
    by (simp add: colliderect_def bullet_at_def double_hit_game_def Player_init_def init_game_def
          get_rect_def consts_defs)
  have w: "check_win (?g2\<lparr>enemy_bullets := [], player := (player double_hit_game)\<lparr>lives := - 1\<rparr>,
            cues := [''player_hit'', ''player_hit''], game_state := game_over,
            player_in_all_sprites := False\<rparr>)
      = ?g2\<lparr>enemy_bullets := [], player := (player double_hit_game)\<lparr>lives := - 1\<rparr>,
            cues := [''player_hit'', ''player_hit''], game_state := game_over,
            player_in_all_sprites := False\<rparr>"
    by (simp add: check_win_def)
  have tick: "playing_updates double_hit_inputs double_hit_game
      = ?g2\<lparr>enemy_bullets := [], player := (player double_hit_game)\<lparr>lives := - 1\<rparr>,
            cues := [''player_hit'', ''player_hit''], game_state := game_over,
            player_in_all_sprites := False\<rparr>"
    unfolding playing_updates_def Let_def double_hit_trace shoot hit shot w ..
  show ?thesis
    unfolding tick h
    by (simp add: double_hit_game_def init_game_def)
qed

text \<open>
  Claim C1, amended. In the pass of the enemy bullets against the player, every bullet that
  overlaps the player is removed, decrements the lives counter by exactly 1 and plays the cue
  \<open>player_hit\<close>; the phase becomes \<open>game_over\<close> when there was a hit and the counter is at
  or below 0 afterwards. The counter is not clamped: after the pass it is the value before less
  the number of overlapping bullets, hence non-negative exactly when no more bullets overlap
  the player than there were lives. Over a whole tick, the counter at the end is the one after
  the formation controller less the number of enemy bullets that overlap the player in the
  collision pass.
\<close>

theorem hits_decrement_lives_unclamped:
  "lives (player (enemy_bullets_hit_player g)) = lives (player g) - int (length (hitting g))
   \<and> enemy_bullets (enemy_bullets_hit_player g)
       = filter (\<lambda>b. \<not> colliderect (p_rect (player g)) (b_rect b)) (enemy_bullets g)
   \<and> cues (enemy_bullets_hit_player g) = cues g @ replicate (length (hitting g)) ''player_hit''
   \<and> game_state (enemy_bullets_hit_player g)
       = (if hitting g \<noteq> [] \<and> lives (player g) - int (length (hitting g)) \<le> 0 then game_over
          else game_state g)
   \<and> (0 \<le> lives (player (enemy_bullets_hit_player g))
        \<longleftrightarrow> int (length (hitting g)) \<le> lives (player g))
   \<and> (let g1 = all_sprites_update (keystate inp) g;
           g2 = enemy_movement (now_move inp) g1;
           g4 = player_bullets_hit_enemies (enemy_shooting (shoot_draws inp) (enemies_group g2) g2)
       in lives (player (playing_updates inp g)) = lives (player g2) - int (length (hitting g4)))"
proof -
  have pass: "lives (player (enemy_bullets_hit_player h)) = lives (player h) - int (length (hitting h))"
    for h
    by (simp add: enemy_bullets_hit_player_eq Let_def)
  have same: "player (player_bullets_hit_enemies (enemy_shooting ds es h)) = player h" for ds es h
    by (simp add: player_bullets_hit_enemies_player enemy_shooting_frame)
  have tick: "lives (player (playing_updates inp g))
      = lives (player (enemy_movement (now_move inp) (all_sprites_update (keystate inp) g)))
        - int (length (hitting (player_bullets_hit_enemies
            (enemy_shooting (shoot_draws inp)
              (enemies_group (enemy_movement (now_move inp) (all_sprites_update (keystate inp) g)))
              (enemy_movement (now_move inp) (all_sprites_update (keystate inp) g))))))"
    by (simp add: playing_updates_def Let_def check_win_lives pass same)
  show ?thesis
    unfolding Let_def
    by (intro conjI tick) (simp_all add: enemy_bullets_hit_player_eq Let_def)
qed


theorem hits_decrement_lives_unclamped_witness:
  "lives (player ((init_game 0 0)\<lparr>enemy_bullets := [bullet_at 388 550 6 CYAN, bullet_at 100 100 6 CYAN]\<rparr>)) = 3
   \<and> hitting ((init_game 0 0)\<lparr>enemy_bullets := [bullet_at 388 550 6 CYAN, bullet_at 100 100 6 CYAN]\<rparr>)
       = [bullet_at 388 550 6 CYAN]
   \<and> lives (player (enemy_bullets_hit_player
        ((init_game 0 0)\<lparr>enemy_bullets := [bullet_at 388 550 6 CYAN, bullet_at 100 100 6 CYAN]\<rparr>))) = 2
   \<and> game_state (enemy_bullets_hit_player
        ((init_game 0 0)\<lparr>enemy_bullets := [bullet_at 388 550 6 CYAN, bullet_at 100 100 6 CYAN]\<rparr>))
       = playing
   \<and> enemy_bullets (enemy_bullets_hit_player
        ((init_game 0 0)\<lparr>enemy_bullets := [bullet_at 388 550 6 CYAN, bullet_at 100 100 6 CYAN]\<rparr>))
       = [bullet_at 100 100 6 CYAN]"
proof -
  let ?g = "(init_game 0 0)\<lparr>enemy_bullets := [bullet_at 388 550 6 CYAN, bullet_at 100 100 6 CYAN]\<rparr>"
  have h: "hitting ?g = [bullet_at 388 550 6 CYAN]"
    by (simp add: hitting_def colliderect_def bullet_at_def init_game_def Player_init_def
          get_rect_def consts_defs)
  have c: "\<not> colliderect (p_rect (player (init_game 0 0))) (b_rect (bullet_at 100 100 6 CYAN))"
    "colliderect (p_rect (player (init_game 0 0))) (b_rect (bullet_at 388 550 6 CYAN))"
    by (simp_all add: colliderect_def bullet_at_def init_game_def Player_init_def get_rect_def
          consts_defs)
  have l: "lives (player (init_game 0 0)) = 3" "game_state (init_game 0 0) = playing"
    by (simp_all add: init_game_def Player_init_def PLAYER_LIVES_def)
  show ?thesis
    using hits_decrement_lives_unclamped
      [of ?g "\<lparr>events = [], keystate = (\<lambda>k. False), now_move = 16, shoot_draws = [],
            screen_batches = []\<rparr>"]
    unfolding h
    by (simp add: c l)
qed

section \<open>The flight of a bullet\<close>

text \<open>
  Claim C6. \<open>Bullet.update\<close> moves a bullet vertically by exactly its velocity and never
  horizontally; size and velocity stay. The velocity is fixed at creation: minus
  \<open>BULLET_SPEED\<close> for the bullets of the player, plus \<open>BULLET_SPEED\<close> for those of the
  enemies, and this holds for every bullet of the game from its start, through shots and
  ticks. A bullet is killed by its update exactly when it is then wholly off the screen, which
  for a bullet flying up from the screen means its bottom edge is above the top of the screen
  and for a bullet flying down means its top edge is below the bottom. Over a whole tick, the
  player bullets left are exactly the moved ones that are neither off the screen nor
  overlapping an enemy alive after the formation step, and the enemy bullets left are exactly
  the moved ones still on the screen and the ones fired in this tick that do not overlap the
  player.
\<close>

theorem bullet_motion_and_removal:
  "Bullet_update b = (advance b, \<not> off_screen (advance b))
   \<and> rect_y (b_rect (advance b)) = rect_y (b_rect b) + speed_y b
   \<and> rect_x (b_rect (advance b)) = rect_x (b_rect b)
   \<and> rect_w (b_rect (advance b)) = rect_w (b_rect b)
   \<and> rect_h (b_rect (advance b)) = rect_h (b_rect b)
   \<and> speed_y (advance b) = speed_y b
   \<and> speed_y (Bullet_init bx by (- 1) col) = - BULLET_SPEED
   \<and> speed_y (Bullet_init bx by 1 col) = BULLET_SPEED
   \<and> 0 < BULLET_SPEED
   \<and> flying (init_game t0 t1)
   \<and> (flying g \<longrightarrow> flying (Player_shoot now g) \<and> flying (playing_updates inp g))
   \<and> (speed_y b < 0 \<and> rect_top (b_rect b) \<le> SCREEN_HEIGHT \<longrightarrow>
        (off_screen (advance b) \<longleftrightarrow> rect_bottom (b_rect (advance b)) < 0))
   \<and> (speed_y b > 0 \<and> rect_bottom (b_rect b) \<ge> 0 \<longrightarrow>
        (off_screen (advance b) \<longleftrightarrow> rect_top (b_rect (advance b)) > SCREEN_HEIGHT))
   \<and> (let g1 = all_sprites_update (keystate inp) g;
           g2 = enemy_movement (now_move inp) g1
       in player_bullets (playing_updates inp g)
            = filter (\<lambda>b. \<not> list_ex (\<lambda>e. overlaps e b) (enemies_group g2))
                (filter (\<lambda>b. \<not> off_screen b) (map advance (player_bullets g)))
          \<and> enemy_bullets (playing_updates inp g)
            = filter (\<lambda>b. \<not> colliderect (p_rect (player g1)) (b_rect b))
                (filter (\<lambda>b. \<not> off_screen b) (map advance (enemy_bullets g))
                 @ fired (shoot_draws inp) (enemies_group g2)))"
proof -
  have up: "speed_y b < 0 \<and> rect_top (b_rect b) \<le> SCREEN_HEIGHT \<longrightarrow>
        (off_screen (advance b) \<longleftrightarrow> rect_bottom (b_rect (advance b)) < 0)"
    by (auto simp: off_screen_def advance_def rect_top_def rect_bottom_def)
  have down: "speed_y b > 0 \<and> rect_bottom (b_rect b) \<ge> 0 \<longrightarrow>
        (off_screen (advance b) \<longleftrightarrow> rect_top (b_rect (advance b)) > SCREEN_HEIGHT)"
    by (auto simp: off_screen_def advance_def rect_top_def rect_bottom_def SCREEN_HEIGHT_def)
  have inv: "flying g \<longrightarrow> flying (Player_shoot now g) \<and> flying (playing_updates inp g)"
    by (simp add: flying_Player_shoot flying_playing_updates)
  have geom: "rect_y (b_rect (advance b)) = rect_y (b_rect b) + speed_y b"
    "rect_x (b_rect (advance b)) = rect_x (b_rect b)"
    "rect_w (b_rect (advance b)) = rect_w (b_rect b)"
    "rect_h (b_rect (advance b)) = rect_h (b_rect b)"
    by (simp_all add: advance_def)
  have pos: "0 < BULLET_SPEED"
    by (simp add: BULLET_SPEED_def)
  show ?thesis
    unfolding Let_def
    by (intro conjI Bullet_update_eq geom speed_y_advance speed_y_Bullet_init pos flying_init inv
          up down playing_updates_bullets)
qed


theorem bullet_motion_and_removal_witness:
  "flying flight_game
   \<and> flying (playing_updates flight_inputs flight_game)
   \<and> speed_y (bullet_at 398 (- 10) (- 6) YELLOW) < 0
   \<and> rect_top (b_rect (bullet_at 398 (- 10) (- 6) YELLOW)) \<le> SCREEN_HEIGHT
   \<and> Bullet_update (bullet_at 398 (- 10) (- 6) YELLOW) = (bullet_at 398 (- 16) (- 6) YELLOW, False)
   \<and> off_screen (bullet_at 398 (- 16) (- 6) YELLOW)
   \<and> overlaps (Enemy_init 110 50 0) (bullet_at 120 69 (- 6) YELLOW)
   \<and> player_bullets (playing_updates flight_inputs flight_game) = [bullet_at 300 294 (- 6) YELLOW]"
proof -
  have f: "flying flight_game"
    by (simp add: flying_def flight_game_def init_game_def bullet_at_def BULLET_SPEED_def)
  have adv: "map advance (player_bullets flight_game)
      = [bullet_at 120 69 (- 6) YELLOW, bullet_at 398 (- 16) (- 6) YELLOW,
         bullet_at 300 294 (- 6) YELLOW]"
    by (simp add: flight_game_def advance_def bullet_at_def)
  have off: "\<not> off_screen (bullet_at 120 69 (- 6) YELLOW)"
    "off_screen (bullet_at 398 (- 16) (- 6) YELLOW)"
    "\<not> off_screen (bullet_at 300 294 (- 6) YELLOW)"
    by (simp_all add: off_screen_def bullet_at_def rect_defs consts_defs)
  have es: "enemies_group (enemy_movement (now_move flight_inputs)
        (all_sprites_update (keystate flight_inputs) flight_game)) = [Enemy_init 110 50 0]"
    by (simp add: enemy_movement_eq all_sprites_update_formation flight_inputs_def
          flight_game_def init_game_def ENEMY_MOVE_INTERVAL_def)
  have ov: "overlaps (Enemy_init 110 50 0) (bullet_at 120 69 (- 6) YELLOW)"
    "\<not> overlaps (Enemy_init 110 50 0) (bullet_at 300 294 (- 6) YELLOW)"
    by (simp_all add: overlaps_def colliderect_def Enemy_init_def bullet_at_def get_rect_def
          consts_defs)
  have b: "advance (bullet_at 398 (- 10) (- 6) YELLOW) = bullet_at 398 (- 16) (- 6) YELLOW"
    by (simp add: advance_def bullet_at_def)
  have s: "speed_y (bullet_at 398 (- 10) (- 6) YELLOW) < 0"
    "rect_top (b_rect (bullet_at 398 (- 10) (- 6) YELLOW)) \<le> SCREEN_HEIGHT"
    by (simp_all add: bullet_at_def rect_defs consts_defs)
  show ?thesis
    using bullet_motion_and_removal [of "bullet_at 398 (- 10) (- 6) YELLOW" 0 0 YELLOW 0 0
        flight_game 0 flight_inputs]
    by (simp add: Let_def f adv off es ov b s)
qed

section \<open>Restart\<close>

text \<open>
  Claim C9. In a terminal phase (\<open>game_over\<close> or \<open>win\<close>) a restart request, that is
  pressing R while the main loop reads its events or releasing R in the terminal screen, makes
  \<open>main_game\<close> return \<open>True\<close>, and the program calls \<open>main_game\<close> again. The game then is
  the one of a fresh start, whatever the game before was: phase \<open>playing\<close>, score 0, a new
  player with 3 lives, the initial step direction, no descent pending, the full grid of
  \<open>ENEMY_ROWS\<close> by \<open>ENEMY_COLS\<close> enemies at its initial positions, and no bullet.
\<close>

theorem restart_reinitialises:
  assumes "game_state g \<noteq> playing"
    and "(\<exists>t. (KEYDOWN K_r, t) \<in> set (events inp))
         \<or> wait_for_input (screen_batches inp) = Some screen_returned"
  shows "main_iteration inp g = Returned True
    \<and> program_step tp tm inp g = Some (init_game tp tm)
    \<and> game_state (init_game tp tm) = playing
    \<and> score (init_game tp tm) = 0
    \<and> player (init_game tp tm) = Player_init tp
    \<and> lives (Player_init tp) = 3
    \<and> enemy_current_move_speed_x (init_game tp tm) = ENEMY_MOVE_SPEED_X
    \<and> \<not> move_enemies_down (init_game tp tm)
    \<and> last_enemy_move_time (init_game tp tm) = tm
    \<and> enemies_group (init_game tp tm) = create_enemies
    \<and> length create_enemies = ENEMY_ROWS * ENEMY_COLS
    \<and> map (\<lambda>e. (rect_x (e_rect e), rect_y (e_rect e))) create_enemies
        = concat (map (\<lambda>row. map (\<lambda>col. (110 + 60 * int col, 50 + 40 * int row)) [0..<10]) [0..<5])
    \<and> player_bullets (init_game tp tm) = []
    \<and> enemy_bullets (init_game tp tm) = []
    \<and> (KEYUP K_r \<in> set b \<and> QUIT \<notin> set b \<and> KEYUP K_q \<notin> set b \<longrightarrow>
          wait_for_input (b # bs) = Some screen_returned)
    \<and> (KEYUP K_r \<notin> set b \<and> QUIT \<notin> set b \<and> KEYUP K_q \<notin> set b \<longrightarrow>
          wait_for_input (b # bs) = wait_for_input bs)"
proof -
  have ret: "main_iteration inp g = Returned True"
  proof (cases "handle_events (events inp) g")
    case (Inl r)
    with handle_events_terminal [OF assms(1), of "events inp"] have "r = True"
      by simp
    with Inl show ?thesis
      by (simp add: main_iteration_def)
  next
    case (Inr g1)
    with handle_events_game_state have g1: "game_state g1 \<noteq> playing"
      using assms(1) by metis
    from Inr assms(1) have "\<not> (\<exists>t. (KEYDOWN K_r, t) \<in> set (events inp))"
      using handle_events_restart by fastforce
    with assms(2) have "wait_for_input (screen_batches inp) = Some screen_returned"
      by blast
    with Inr g1 show ?thesis
      by (simp add: main_iteration_def game_over_screen_def win_screen_def)
  qed
  then have step: "program_step tp tm inp g = Some (init_game tp tm)"
    by (simp add: program_step_def)
  have fresh: "game_state (init_game tp tm) = playing" "score (init_game tp tm) = 0"
    "player (init_game tp tm) = Player_init tp" "lives (Player_init tp) = 3"
    "enemy_current_move_speed_x (init_game tp tm) = ENEMY_MOVE_SPEED_X"
    "\<not> move_enemies_down (init_game tp tm)" "last_enemy_move_time (init_game tp tm) = tm"
    "enemies_group (init_game tp tm) = create_enemies"
    "player_bullets (init_game tp tm) = []" "enemy_bullets (init_game tp tm) = []"
    by (simp_all add: init_game_def Player_init_def PLAYER_LIVES_def)
  have w1: "KEYUP K_r \<in> set b \<and> QUIT \<notin> set b \<and> KEYUP K_q \<notin> set b \<longrightarrow>
          wait_for_input (b # bs) = Some screen_returned"
    by (simp add: scan_batch_eq)
  have w2: "KEYUP K_r \<notin> set b \<and> QUIT \<notin> set b \<and> KEYUP K_q \<notin> set b \<longrightarrow>
          wait_for_input (b # bs) = wait_for_input bs"
    by (simp add: scan_batch_eq)
  show ?thesis
    by (intro conjI ret step fresh length_create_enemies grid_positions w1 w2)
qed

theorem restart_reinitialises_witness:
  "game_state finished_game \<noteq> playing
   \<and> score finished_game = 4900
   \<and> player_bullets finished_game \<noteq> []
   \<and> main_iteration \<lparr>events = [(KEYDOWN K_r, 9000)], keystate = (\<lambda>k. False), now_move = 9000,
          shoot_draws = [], screen_batches = []\<rparr> finished_game = Returned True
   \<and> program_step 9100 9101 \<lparr>events = [(KEYDOWN K_r, 9000)], keystate = (\<lambda>k. False),
          now_move = 9000, shoot_draws = [], screen_batches = []\<rparr> finished_game
       = Some (init_game 9100 9101)
   \<and> score (init_game 9100 9101) = 0
   \<and> player_bullets (init_game 9100 9101) = []
   \<and> wait_for_input [[KEYDOWN K_r], [KEYUP K_r]] = Some screen_returned"
proof -
  have t: "game_state finished_game \<noteq> playing"
    by (simp add: finished_game_def)
  have r: "(\<exists>t. (KEYDOWN K_r, t) \<in> set (events \<lparr>events = [(KEYDOWN K_r, 9000)],
      keystate = (\<lambda>k. False), now_move = 9000, shoot_draws = [], screen_batches = []\<rparr>))
      \<or> wait_for_input (screen_batches \<lparr>events = [(KEYDOWN K_r, 9000)],
      keystate = (\<lambda>k. False), now_move = 9000, shoot_draws = [], screen_batches = []\<rparr>)
        = Some screen_returned"
    by simp
  have s: "score finished_game = 4900" "player_bullets finished_game \<noteq> []"
    by (simp_all add: finished_game_def)
  show ?thesis
    using restart_reinitialises [OF t r, of 9100 9101 "[KEYUP K_r]" "[]"] s t
    by simp
qed


end
